theory Spec2Isabelle
  imports Complex_Main "HOL-Library.Word" "HOL-Library.Log_Nat" "HOL-Library.Sublist"
begin

unbundle bit_operations_syntax

section \<open>Characters and C strings\<close>

text \<open>
  The lexer of \<^verbatim>\<open>lexer.hpp\<close> works on \<^verbatim>\<open>char\<close> buffers. Plain \<^verbatim>\<open>char\<close> is read
  as a signed 8-bit value, as on the platforms the repository's own tests assume
  (\<^verbatim>\<open>lex.scan_number<char>()\<close> is asserted to be \<^verbatim>\<open>-120\<close>). On 7-bit ASCII text
  the signed and the unsigned reading coincide.

  A \<^verbatim>\<open>const char *\<close> into a NUL-terminated buffer is modelled by the list of characters
  from the pointer on: \<^verbatim>\<open>*p\<close> is the head of the list, and NUL when the list is
  empty; \<^verbatim>\<open>p + 1\<close> is the tail.
\<close>

definition schar :: "char \<Rightarrow> int" where
  "schar c = (if of_char c < (128::nat) then int (of_char c) else int (of_char c) - 256)"

abbreviation NUL :: char where
  "NUL \<equiv> CHR 0x00"

definition peek :: "string \<Rightarrow> char" where
  "peek p = (case p of [] \<Rightarrow> NUL | c # _ \<Rightarrow> c)"

definition c_str :: "string \<Rightarrow> string" where
  "c_str s = takeWhile (\<lambda>c. c \<noteq> NUL) s"

definition is_digit :: "char \<Rightarrow> bool" where
  "is_digit c = (schar CHR ''0'' \<le> schar c \<and> schar c \<le> schar CHR ''9'')"

definition is_lower :: "char \<Rightarrow> bool" where
  "is_lower c = (schar CHR ''a'' \<le> schar c \<and> schar c \<le> schar CHR ''z'')"

definition is_upper :: "char \<Rightarrow> bool" where
  "is_upper c = (schar CHR ''A'' \<le> schar c \<and> schar c \<le> schar CHR ''Z'')"

text \<open>\<^verbatim>\<open>*p - '0'\<close>, an \<^verbatim>\<open>int\<close>.\<close>

definition digit_val :: "char \<Rightarrow> int" where
  "digit_val c = schar c - schar CHR ''0''"

section \<open>Doubles\<close>

text \<open>
  The numeric cache of a token holds a \<^verbatim>\<open>double\<close>. A finite double is modelled by
  the rational it denotes, and every operation rounds its exact result to the nearest
  binary64 value, ties to even (53 significant bits, exponents from -1022 to 1023,
  gradual underflow, overflow to infinity). The sign of zero and the payload of a NaN
  are not represented.
\<close>

datatype double = Fin rat | PInf | NInf | NaN

definition round_half_even :: "rat \<Rightarrow> int" where
  "round_half_even x =
     (let f = \<lfloor>x\<rfloor>; r = x - of_int f
      in if r < 1 / 2 then f else if 1 / 2 < r then f + 1 else if even f then f else f + 1)"

text \<open>For \<open>0 < x\<close>, the \<open>e\<close> with \<open>2 powi e \<le> x < 2 powi (e + 1)\<close>.\<close>

definition floor_log2 :: "rat \<Rightarrow> int" where
  "floor_log2 x =
     (let (a, b) = quotient_of x; e0 = bitlen a - bitlen b
      in if 2 powi e0 \<le> x then e0 else e0 - 1)"

definition round_double :: "rat \<Rightarrow> double" where
  "round_double x =
     (if x = 0 then Fin 0
      else let e = max (floor_log2 \<bar>x\<bar>) (- 1022);
               q = 2 powi (e - 52);
               y = of_int (round_half_even (x / q)) * q
           in if 2 ^ 1024 \<le> \<bar>y\<bar> then (if 0 < x then PInf else NInf) else Fin y)"

fun dsign :: "double \<Rightarrow> int" where
  "dsign (Fin a) = (if a = 0 then 0 else if 0 < a then 1 else - 1)"
| "dsign PInf = 1"
| "dsign NInf = - 1"
| "dsign NaN = 0"

definition inf_of_sign :: "int \<Rightarrow> double" where
  "inf_of_sign s = (if s = 0 then NaN else if 0 < s then PInf else NInf)"

fun fmul :: "double \<Rightarrow> double \<Rightarrow> double" where
  "fmul (Fin a) (Fin b) = round_double (a * b)"
| "fmul NaN y = NaN"
| "fmul x NaN = NaN"
| "fmul x y = inf_of_sign (dsign x * dsign y)"

fun fadd :: "double \<Rightarrow> double \<Rightarrow> double" where
  "fadd (Fin a) (Fin b) = round_double (a + b)"
| "fadd NaN y = NaN"
| "fadd x NaN = NaN"
| "fadd PInf NInf = NaN"
| "fadd NInf PInf = NaN"
| "fadd PInf y = PInf"
| "fadd x PInf = PInf"
| "fadd NInf y = NInf"
| "fadd x NInf = NInf"

fun fdiv :: "double \<Rightarrow> double \<Rightarrow> double" where
  "fdiv (Fin a) (Fin b) = (if b = 0 then inf_of_sign (dsign (Fin a)) else round_double (a / b))"
| "fdiv NaN y = NaN"
| "fdiv x NaN = NaN"
| "fdiv (Fin a) y = Fin 0"
| "fdiv x (Fin b) = inf_of_sign (dsign x * (if b < 0 then - 1 else 1))"
| "fdiv x y = NaN"

text \<open>\<^verbatim>\<open>static_cast<double>\<close> of an \<^verbatim>\<open>int\<close> and of a \<^verbatim>\<open>std::uint64_t\<close>.\<close>

definition double_of_int :: "int \<Rightarrow> double" where
  "double_of_int i = round_double (of_int i)"

definition double_of_u64 :: "64 word \<Rightarrow> double" where
  "double_of_u64 w = round_double (of_int (uint w))"

text \<open>
  \<^verbatim>\<open>static_cast<std::uint64_t>\<close> of a double drops the fractional part; the behaviour
  is undefined when the truncated value is not a \<^verbatim>\<open>std::uint64_t\<close> (result \<open>None\<close>).
\<close>

definition trunc_toward_zero :: "rat \<Rightarrow> int" where
  "trunc_toward_zero x = (if 0 \<le> x then \<lfloor>x\<rfloor> else \<lceil>x\<rceil>)"

definition u64_of_double :: "double \<Rightarrow> 64 word option" where
  "u64_of_double d =
     (case d of
        Fin x \<Rightarrow> if - 1 < x \<and> x < 2 ^ 64 then Some (word_of_int (trunc_toward_zero x)) else None
      | _ \<Rightarrow> None)"

section \<open>Tokens\<close>

datatype token_type =
  type_none | type_number | type_string | type_literal | type_identifier | type_punctuation

text \<open>The bits of \<^verbatim>\<open>token::flags\<close>.\<close>

definition flags_integer :: "32 word" where "flags_integer = push_bit 0 1"
definition flags_signed_integer :: "32 word" where "flags_signed_integer = push_bit 1 1"
definition flags_unsigned_integer :: "32 word" where "flags_unsigned_integer = push_bit 2 1"
definition flags_binary :: "32 word" where "flags_binary = push_bit 3 1"
definition flags_octal :: "32 word" where "flags_octal = push_bit 4 1"
definition flags_decimal :: "32 word" where "flags_decimal = push_bit 5 1"
definition flags_hexadecimal :: "32 word" where "flags_hexadecimal = push_bit 6 1"
definition flags_floating_point :: "32 word" where "flags_floating_point = push_bit 7 1"
definition flags_single_precision :: "32 word" where "flags_single_precision = push_bit 8 1"
definition flags_double_precision :: "32 word" where "flags_double_precision = push_bit 9 1"
definition flags_extended_precision :: "32 word" where "flags_extended_precision = push_bit 10 1"
definition flags_infinite :: "32 word" where "flags_infinite = push_bit 11 1"
definition flags_indefinite :: "32 word" where "flags_indefinite = push_bit 12 1"
definition flags_nan :: "32 word" where "flags_nan = push_bit 13 1"
definition flags_ip_address :: "32 word" where "flags_ip_address = push_bit 14 1"
definition flags_ip_port :: "32 word" where "flags_ip_port = push_bit 15 1"
definition flags_boolean :: "32 word" where "flags_boolean = push_bit 16 1"

text \<open>\<^verbatim>\<open>flags & bit\<close> used as a condition.\<close>

definition has_flag :: "32 word \<Rightarrow> 32 word \<Rightarrow> bool" where
  "has_flag fl b = (fl AND b \<noteq> 0)"

record token =
  m_string :: string
  m_flags :: "32 word"
  m_line_num :: "32 word"
  m_lines_crossed :: "32 word"
  m_type :: token_type
  m_values_valid :: bool
  m_u64_value :: "64 word"
  m_double_value :: double

text \<open>The default-constructed token, and \<^verbatim>\<open>token::clear\<close>, which restores it.\<close>

definition empty_token :: token where
  "empty_token =
     \<lparr>m_string = [], m_flags = 0, m_line_num = 0, m_lines_crossed = 0, m_type = type_none,
      m_values_valid = True, m_u64_value = 0, m_double_value = Fin 0\<rparr>"

definition token_clear :: "token \<Rightarrow> token" where
  "token_clear t = empty_token"

definition is_number :: "token \<Rightarrow> bool" where
  "is_number t = (m_type t = type_number)"

definition is_boolean :: "token \<Rightarrow> bool" where
  "is_boolean t = has_flag (m_flags t) flags_boolean"

definition get_length :: "token \<Rightarrow> nat" where
  "get_length t = length (m_string t)"

subsection \<open>Comparison with a character\<close>

definition token_eq_char :: "token \<Rightarrow> char \<Rightarrow> bool" where
  "token_eq_char t c = (length (m_string t) = 1 \<and> m_string t ! 0 = c)"

definition token_ne_char :: "token \<Rightarrow> char \<Rightarrow> bool" where
  "token_ne_char t c = (length (m_string t) = 1 \<and> m_string t ! 0 \<noteq> c)"

text \<open>Comparison with a C string: \<^verbatim>\<open>m_string == str\<close>.\<close>

definition token_eq_string :: "token \<Rightarrow> string \<Rightarrow> bool" where
  "token_eq_string t str = (m_string t = c_str str)"

subsection \<open>Setters\<close>

definition set_string :: "string \<Rightarrow> token \<Rightarrow> token" where
  "set_string new_text t = t\<lparr>m_string := new_text, m_values_valid := False\<rparr>"

definition set_flags :: "32 word \<Rightarrow> token \<Rightarrow> token" where
  "set_flags new_flags t = t\<lparr>m_flags := new_flags, m_values_valid := False\<rparr>"

definition set_line_number :: "32 word \<Rightarrow> token \<Rightarrow> token" where
  "set_line_number new_line_num t = t\<lparr>m_line_num := new_line_num\<rparr>"

definition set_lines_crossed :: "32 word \<Rightarrow> token \<Rightarrow> token" where
  "set_lines_crossed new_lines_crossed t = t\<lparr>m_lines_crossed := new_lines_crossed\<rparr>"

definition set_type :: "token_type \<Rightarrow> token \<Rightarrow> token" where
  "set_type new_type t = t\<lparr>m_type := new_type, m_values_valid := False\<rparr>"

text \<open>\<^verbatim>\<open>append(char)\<close> and \<^verbatim>\<open>append(const char *)\<close>; \<open>None\<close> is the null pointer.\<close>

definition append_char :: "char \<Rightarrow> token \<Rightarrow> token" where
  "append_char c t =
     (if c \<noteq> NUL then t\<lparr>m_string := m_string t @ [c], m_values_valid := False\<rparr> else t)"

definition append_str :: "string option \<Rightarrow> token \<Rightarrow> token" where
  "append_str str t =
     (case str of
        None \<Rightarrow> t
      | Some s \<Rightarrow>
          if peek s \<noteq> NUL then t\<lparr>m_string := m_string t @ c_str s, m_values_valid := False\<rparr>
          else t)"


subsection \<open>The numeric value of a token\<close>

text \<open>
  \<^verbatim>\<open>token::update_cached_values\<close> reads the text through \<^verbatim>\<open>m_string.c_str()\<close>. Its loops
  are recursions on that C string. The floating-point branch:
\<close>

fun float_int_part :: "double \<Rightarrow> string \<Rightarrow> double \<times> string" where
  "float_int_part v [] = (v, [])"
| "float_int_part v (c # p) =
     (if c = CHR ''.'' \<or> c = CHR ''e'' then (v, c # p)
      else float_int_part (fadd (fmul v (Fin 10)) (double_of_int (digit_val c))) p)"

fun float_frac_part :: "double \<Rightarrow> double \<Rightarrow> string \<Rightarrow> double \<times> string" where
  "float_frac_part v m [] = (v, [])"
| "float_frac_part v m (c # p) =
     (if c = CHR ''e'' then (v, c # p)
      else float_frac_part (fadd v (fmul (double_of_int (digit_val c)) m))
             (fmul m (round_double (1 / 10))) p)"

text \<open>
  The exponent is accumulated in an \<^verbatim>\<open>int\<close>; its overflow, undefined in C++, is taken
  to wrap around.
\<close>

definition wrap_int :: "int \<Rightarrow> int" where
  "wrap_int i = sint (word_of_int i :: 32 word)"

fun float_pow :: "int \<Rightarrow> string \<Rightarrow> int" where
  "float_pow pow [] = pow"
| "float_pow pow (c # p) = float_pow (wrap_int (pow * 10 + digit_val c)) p"

definition float_exp_part :: "double \<Rightarrow> string \<Rightarrow> double" where
  "float_exp_part v p =
     (case p of
        [] \<Rightarrow> v
      | c # p1 \<Rightarrow>
          if c = CHR ''e'' then
            (let (neg_exp, p2) =
                   (if peek p1 = CHR ''-'' then (True, tl p1)
                    else if peek p1 = CHR ''+'' then (False, tl p1)
                    else (False, p1));
                 pow = float_pow 0 p2;
                 m = ((\<lambda>m. fmul m (Fin 10)) ^^ nat pow) (Fin 1)
             in if neg_exp then fdiv v m else fmul v m)
          else v)"

definition float_value :: "string \<Rightarrow> double" where
  "float_value p =
     (let (v1, p1) = float_int_part (Fin 0) p;
          (v2, p2) = (if peek p1 = CHR ''.'' then float_frac_part v1 (round_double (1 / 10)) (tl p1)
                      else (v1, p1))
      in float_exp_part v2 p2)"

text \<open>The integer branches, in \<^verbatim>\<open>std::uint64_t\<close> arithmetic.\<close>

fun dec_u64 :: "64 word \<Rightarrow> string \<Rightarrow> 64 word" where
  "dec_u64 v [] = v"
| "dec_u64 v (c # p) = dec_u64 (v * 10 + word_of_int (digit_val c)) p"

fun oct_u64 :: "64 word \<Rightarrow> string \<Rightarrow> 64 word" where
  "oct_u64 v [] = v"
| "oct_u64 v (c # p) = oct_u64 (push_bit 3 v + word_of_int (digit_val c)) p"

fun hex_u64 :: "64 word \<Rightarrow> string \<Rightarrow> 64 word" where
  "hex_u64 v [] = v"
| "hex_u64 v (c # p) =
     hex_u64
       (push_bit 4 v +
        (if schar CHR ''a'' \<le> schar c \<and> schar c \<le> schar CHR ''f''
         then word_of_int (schar c - schar CHR ''a'' + 10)
         else if schar CHR ''A'' \<le> schar c \<and> schar c \<le> schar CHR ''F''
         then word_of_int (schar c - schar CHR ''A'' + 10)
         else word_of_int (digit_val c))) p"

fun bin_u64 :: "64 word \<Rightarrow> string \<Rightarrow> 64 word" where
  "bin_u64 v [] = v"
| "bin_u64 v (c # p) = bin_u64 (push_bit 1 v + word_of_int (digit_val c)) p"

text \<open>
  The IP branch fills \<^verbatim>\<open>std::uint32_t ip[5]\<close>; an index beyond the array is undefined
  behaviour (\<open>None\<close>).
\<close>

fun ip_scan :: "32 word list \<Rightarrow> nat \<Rightarrow> string \<Rightarrow> 32 word list option" where
  "ip_scan ip i [] = Some ip"
| "ip_scan ip i (c # p) =
     (if c = CHR ''.'' \<or> c = CHR '':'' then ip_scan ip (i + 1) p
      else if i < 5 then ip_scan (ip[i := ip ! i * 10 + word_of_int (digit_val c)]) i p
      else None)"

definition ip_value :: "32 word list \<Rightarrow> 64 word" where
  "ip_value ip =
     (let ip_word = ucast (push_bit 24 (ip ! 0) OR push_bit 16 (ip ! 1) OR push_bit 8 (ip ! 2)
                           OR ip ! 3) :: 64 word;
          port_word = ucast (ip ! 4) :: 64 word
      in push_bit 32 port_word OR ip_word)"

text \<open>
  The pair \<^verbatim>\<open>(new_u64_val, new_double_val)\<close> that \<^verbatim>\<open>update_cached_values\<close> computes from
  the text and the flags. The octal, hexadecimal and binary branches step over the
  prefix of the text without looking at it.
\<close>

definition computed_values :: "string \<Rightarrow> 32 word \<Rightarrow> (64 word \<times> double) option" where
  "computed_values text fl =
     (let p = c_str text
      in if has_flag fl flags_floating_point then
           (let d = (if has_flag fl (flags_infinite OR flags_indefinite OR flags_nan) then
                       (if has_flag fl flags_infinite then PInf
                        else if has_flag fl flags_indefinite then NaN
                        else if has_flag fl flags_nan then NaN
                        else Fin 0)
                     else float_value p)
            in map_option (\<lambda>u. (u, d)) (u64_of_double d))
         else if has_flag fl flags_decimal then
           (let u = dec_u64 0 p in Some (u, double_of_u64 u))
         else if has_flag fl flags_octal then
           (let u = oct_u64 0 (drop 1 p) in Some (u, double_of_u64 u))
         else if has_flag fl flags_hexadecimal then
           (let u = hex_u64 0 (drop 2 p) in Some (u, double_of_u64 u))
         else if has_flag fl flags_binary then
           (let u = bin_u64 0 (drop 2 p) in Some (u, double_of_u64 u))
         else if has_flag fl flags_ip_address then
           (case ip_scan [0, 0, 0, 0, 0] 0 p of
              None \<Rightarrow> None
            | Some ip \<Rightarrow> (let u = ip_value ip in Some (u, double_of_u64 u)))
         else if has_flag fl flags_boolean then
           (let u = (if p = ''true'' then 1 else 0) in Some (u, double_of_u64 u))
         else Some (0, Fin 0))"

definition update_cached_values :: "token \<Rightarrow> token option" where
  "update_cached_values t =
     map_option
       (\<lambda>(u, d). t\<lparr>m_u64_value := u, m_double_value := d, m_values_valid := True\<rparr>)
       (computed_values (m_string t) (m_flags t))"

text \<open>
  The accessors are \<^verbatim>\<open>const\<close> but fill the \<^verbatim>\<open>mutable\<close> cache: they return the value
  together with the token as it is afterwards.
\<close>

definition get_value_u64 :: "token \<Rightarrow> (64 word \<times> token) option" where
  "get_value_u64 t =
     (if \<not> is_number t \<and> \<not> is_boolean t then Some (0, t)
      else if \<not> m_values_valid t then
        map_option (\<lambda>t'. (m_u64_value t', t')) (update_cached_values t)
      else Some (m_u64_value t, t))"

definition get_value_double :: "token \<Rightarrow> (double \<times> token) option" where
  "get_value_double t =
     (if \<not> is_number t \<and> \<not> is_boolean t then Some (Fin 0, t)
      else if \<not> m_values_valid t then
        map_option (\<lambda>t'. (m_double_value t', t')) (update_cached_values t)
      else Some (m_double_value t, t))"

definition as_double :: "token \<Rightarrow> (double \<times> token) option" where
  "as_double t = get_value_double t"

definition as_uint64 :: "token \<Rightarrow> (64 word \<times> token) option" where
  "as_uint64 t = get_value_u64 t"

text \<open>\<^verbatim>\<open>static_cast<std::int64_t>\<close>: the two's complement reading of the same 64 bits.\<close>

definition as_int64 :: "token \<Rightarrow> (int \<times> token) option" where
  "as_int64 t = map_option (\<lambda>(u, t'). (sint u, t')) (get_value_u64 t)"

definition as_bool :: "token \<Rightarrow> (bool \<times> token) option" where
  "as_bool t = map_option (\<lambda>(u, t'). (u \<noteq> 0, t')) (get_value_u64 t)"

subsection \<open>Trimming\<close>

definition is_blank :: "char \<Rightarrow> bool" where
  "is_blank c = (c \<in> set [CHR '' '', CHR 0x09, CHR 0x0D, CHR 0x0A, CHR 0x0B, CHR 0x0C])"

definition ltrim_string :: "string \<Rightarrow> string" where
  "ltrim_string s = dropWhile is_blank s"

definition rtrim_string :: "string \<Rightarrow> string" where
  "rtrim_string s = rev (dropWhile is_blank (rev s))"

definition trim_string :: "string \<Rightarrow> string" where
  "trim_string s = ltrim_string (rtrim_string s)"

text \<open>\<^verbatim>\<open>token::trim\<close> copies the token and trims the copy's \<^verbatim>\<open>m_string\<close> in place.\<close>

definition trim :: "token \<Rightarrow> token" where
  "trim t = t\<lparr>m_string := trim_string (m_string t)\<rparr>"


section \<open>The lexer\<close>

text \<open>The bits of \<^verbatim>\<open>lexer::flags\<close>.\<close>

definition flags_no_errors :: "32 word" where "flags_no_errors = push_bit 0 1"
definition flags_no_warnings :: "32 word" where "flags_no_warnings = push_bit 1 1"
definition flags_no_fatal_errors :: "32 word" where "flags_no_fatal_errors = push_bit 2 1"
definition flags_no_string_concat :: "32 word" where "flags_no_string_concat = push_bit 3 1"
definition flags_no_string_escape_chars :: "32 word" where
  "flags_no_string_escape_chars = push_bit 4 1"
definition flags_allow_path_names :: "32 word" where "flags_allow_path_names = push_bit 5 1"
definition flags_allow_number_names :: "32 word" where "flags_allow_number_names = push_bit 6 1"
definition flags_allow_ip_addresses :: "32 word" where "flags_allow_ip_addresses = push_bit 7 1"
definition flags_allow_float_exceptions :: "32 word" where
  "flags_allow_float_exceptions = push_bit 8 1"
definition flags_allow_multi_char_literals :: "32 word" where
  "flags_allow_multi_char_literals = push_bit 9 1"
definition flags_allow_backslash_string_concat :: "32 word" where
  "flags_allow_backslash_string_concat = push_bit 10 1"
definition flags_only_strings :: "32 word" where "flags_only_strings = push_bit 11 1"

text \<open>
  The instance data of \<^verbatim>\<open>class lexer\<close>. Every pointer of the class points into the one
  script buffer, and is modelled by the characters from the pointer to the end of the
  buffer (the terminating NUL not included): two pointers are equal exactly when these
  lists are, and \<^verbatim>\<open>m_script_ptr - m_buffer_head_ptr\<close> is the difference of their lengths.
  \<^verbatim>\<open>m_end_ptr\<close> is the empty list and is left out, as are the file name and the
  ownership flag of the buffer. The lexer's \<^verbatim>\<open>m_flags\<close> and \<^verbatim>\<open>m_line_num\<close> are named
  \<open>m_lexer_flags\<close> and \<open>m_lexer_line_num\<close>, the token having fields of the same names.
\<close>

record lexer =
  m_buffer_head_ptr :: string
  m_script_ptr :: string
  m_last_script_ptr :: string
  m_whitespace_start_ptr :: "string option"
  m_whitespace_end_ptr :: "string option"
  m_lexer_flags :: "32 word"
  m_last_line_num :: "32 word"
  m_lexer_line_num :: "32 word"
  m_error_count :: "32 word"
  m_warn_count :: "32 word"
  m_leftover_token :: token
  m_token_available :: bool
  m_initialized :: bool

text \<open>
  \<^verbatim>\<open>*m_script_ptr\<close>, \<^verbatim>\<open>*(m_script_ptr + 1)\<close> and \<^verbatim>\<open>++m_script_ptr\<close>. Stepping over
  the terminating NUL, which is undefined in C++, leaves the pointer at the end.
  \<^verbatim>\<open>*(m_script_ptr - 1)\<close> is read from the buffer.
\<close>

definition cur :: "lexer \<Rightarrow> char" where
  "cur s = peek (m_script_ptr s)"

definition cur1 :: "lexer \<Rightarrow> char" where
  "cur1 s = peek (tl (m_script_ptr s))"

definition step :: "lexer \<Rightarrow> lexer" where
  "step s = s\<lparr>m_script_ptr := tl (m_script_ptr s)\<rparr>"

definition prev_char :: "lexer \<Rightarrow> char" where
  "prev_char s =
     (let off = length (m_buffer_head_ptr s) - length (m_script_ptr s)
      in if 0 < off \<and> off \<le> length (m_buffer_head_ptr s)
         then m_buffer_head_ptr s ! (off - 1) else NUL)"

definition line_inc :: "lexer \<Rightarrow> lexer" where
  "line_inc s = s\<lparr>m_lexer_line_num := m_lexer_line_num s + 1\<rparr>"

definition lex_flag :: "lexer \<Rightarrow> 32 word \<Rightarrow> bool" where
  "lex_flag s b = has_flag (m_lexer_flags s) b"

subsection \<open>Errors and warnings\<close>

text \<open>
  \<^verbatim>\<open>lexer::error\<close> and \<^verbatim>\<open>lexer::warning\<close> bump their counter first and then, unless
  the flags suppress it, hand the message to the callback. The output is not modelled.
  \<^verbatim>\<open>error\<close> returns false; the default callback throws on a fatal error instead, which
  unwinds the scanning functions below exactly where they would return that false:
  both are the result \<open>False\<close> here.
\<close>

definition error :: "string \<Rightarrow> lexer \<Rightarrow> bool \<times> lexer" where
  "error message s = (False, s\<lparr>m_error_count := m_error_count s + 1\<rparr>)"

definition warning :: "string \<Rightarrow> lexer \<Rightarrow> lexer" where
  "warning message s = s\<lparr>m_warn_count := m_warn_count s + 1\<rparr>"



subsection \<open>Opening, resetting and clearing\<close>

definition new_lexer :: lexer where
  "new_lexer =
     \<lparr>m_buffer_head_ptr = [], m_script_ptr = [], m_last_script_ptr = [],
      m_whitespace_start_ptr = None, m_whitespace_end_ptr = None, m_lexer_flags = 0,
      m_last_line_num = 0, m_lexer_line_num = 0, m_error_count = 0, m_warn_count = 0,
      m_leftover_token = empty_token, m_token_available = False, m_initialized = False\<rparr>"

definition init_from_memory :: "string \<Rightarrow> 32 word \<Rightarrow> 32 word \<Rightarrow> lexer \<Rightarrow> bool \<times> lexer" where
  "init_from_memory ptr flags starting_line s =
     (if m_initialized s
      then error ''lexer::init_from_memory() -> another script is already loaded!'' s
      else (True, s\<lparr>m_buffer_head_ptr := ptr, m_script_ptr := ptr, m_last_script_ptr := ptr,
                     m_lexer_line_num := starting_line, m_last_line_num := starting_line,
                     m_lexer_flags := flags, m_initialized := True\<rparr>))"

definition reset :: "lexer \<Rightarrow> lexer" where
  "reset s =
     s\<lparr>m_script_ptr := m_buffer_head_ptr s, m_last_script_ptr := m_buffer_head_ptr s,
       m_whitespace_start_ptr := None, m_whitespace_end_ptr := None,
       m_last_line_num := 1, m_lexer_line_num := 1, m_error_count := 0, m_warn_count := 0,
       m_token_available := False, m_leftover_token := token_clear (m_leftover_token s)\<rparr>"

definition free_script_source :: "lexer \<Rightarrow> lexer" where
  "free_script_source s =
     s\<lparr>m_buffer_head_ptr := [], m_script_ptr := [], m_last_script_ptr := [],
       m_whitespace_start_ptr := None, m_whitespace_end_ptr := None,
       m_last_line_num := 0, m_lexer_line_num := 0, m_token_available := False,
       m_initialized := False, m_leftover_token := token_clear (m_leftover_token s)\<rparr>"

definition clear :: "lexer \<Rightarrow> lexer" where
  "clear s = (free_script_source s)\<lparr>m_error_count := 0, m_warn_count := 0\<rparr>"

definition unget_token :: "token \<Rightarrow> lexer \<Rightarrow> lexer" where
  "unget_token in_token s =
     (let s1 = (if m_token_available s
                then warning ''lexer::unget_token() called twice in a row!'' s else s)
      in s1\<lparr>m_leftover_token := in_token, m_token_available := True\<rparr>)"

subsection \<open>Whitespace and comments\<close>

lemma cur_not_NUL: "cur s \<noteq> NUL \<Longrightarrow> m_script_ptr s \<noteq> []"
  by (auto simp: cur_def peek_def)

lemma step_decreases:
  "cur (step s) \<noteq> NUL \<Longrightarrow> length (m_script_ptr (step s)) < length (m_script_ptr s)"
  by (cases "m_script_ptr s") (auto simp: step_def cur_def peek_def)

lemma cur_decreases:
  "cur s \<noteq> NUL \<Longrightarrow> length (m_script_ptr (step s)) < length (m_script_ptr s)"
  by (cases "m_script_ptr s") (auto simp: step_def cur_def peek_def)

lemma ptr_line_inc [simp]: "m_script_ptr (line_inc s) = m_script_ptr s"
  by (simp add: line_inc_def)

lemma ptr_warning [simp]: "m_script_ptr (warning msg s) = m_script_ptr s"
  by (simp add: warning_def)

lemma step_line_inc: "step (line_inc s) = line_inc (step s)"
  by (simp add: step_def line_inc_def)

lemma cur_line_inc [simp]: "cur (line_inc s) = cur s"
  by (simp add: cur_def)

lemma cur_warning [simp]: "cur (warning msg s) = cur s"
  by (simp add: cur_def)

text \<open>The loop \<^verbatim>\<open>while (*m_script_ptr <= ' ')\<close>; the result \<open>False\<close> is its \<^verbatim>\<open>return false\<close>.\<close>

function skip_blanks :: "lexer \<Rightarrow> bool \<times> lexer" where
  "skip_blanks s =
     (if schar (cur s) \<le> schar CHR '' '' then
        (if cur s = NUL then (False, s)
         else skip_blanks (step (if cur s = CHR 0x0A then line_inc s else s)))
      else (True, s))"
  by pat_completeness auto
termination
  by (relation "measure (\<lambda>s. length (m_script_ptr s))")
     (auto simp: step_line_inc intro: cur_decreases)

declare skip_blanks.simps [simp del]

text \<open>The \<^verbatim>\<open>do ... while (*m_script_ptr != '\n')\<close> of a \<^verbatim>\<open>//\<close> comment.\<close>

function line_comment :: "lexer \<Rightarrow> bool \<times> lexer" where
  "line_comment s =
     (if cur (step s) = NUL then (False, step s)
      else if cur (step s) \<noteq> CHR 0x0A then line_comment (step s)
      else (True, step s))"
  by pat_completeness auto
termination
  by (relation "measure (\<lambda>s. length (m_script_ptr s))")
     (auto intro: step_decreases)

declare line_comment.simps [simp del]

text \<open>The inner \<^verbatim>\<open>for (;;)\<close> of a \<^verbatim>\<open>/* */\<close> comment; \<open>True\<close> is its \<^verbatim>\<open>break\<close>.\<close>

function block_comment :: "lexer \<Rightarrow> bool \<times> lexer" where
  "block_comment s =
     (if cur (step s) = NUL then (False, step s)
      else if cur (step s) = CHR 0x0A then block_comment (line_inc (step s))
      else if cur (step s) = CHR ''/'' then
        (if prev_char (step s) = CHR ''*'' then (True, step s)
         else if cur1 (step s) = CHR ''*''
         then block_comment (warning ''nested C-style, multi-line comment!'' (step s))
         else block_comment (step s))
      else block_comment (step s))"
  by pat_completeness auto
termination
  by (relation "measure (\<lambda>s. length (m_script_ptr s))")
     (auto intro: step_decreases)

declare block_comment.simps [simp del]


lemma step_le: "length (m_script_ptr (step s)) \<le> length (m_script_ptr s)"
  by (simp add: step_def)

lemma skip_blanks_le: "length (m_script_ptr (snd (skip_blanks s))) \<le> length (m_script_ptr s)"
proof (induction s rule: skip_blanks.induct)
  case (1 s)
  show ?case
  proof (cases "schar (cur s) \<le> schar CHR '' '' \<and> cur s \<noteq> NUL")
    case True
    then have "length (m_script_ptr (snd (skip_blanks s)))
        \<le> length (m_script_ptr (step (if cur s = CHR 0x0A then line_inc s else s)))"
      using 1 by (subst skip_blanks.simps) simp
    also have "\<dots> \<le> length (m_script_ptr s)"
      by (simp add: step_def)
    finally show ?thesis .
  next
    case False
    then show ?thesis by (subst skip_blanks.simps) auto
  qed
qed

lemma line_comment_le: "length (m_script_ptr (snd (line_comment s))) \<le> length (m_script_ptr s)"
proof (induction s rule: line_comment.induct)
  case (1 s)
  show ?case
  proof (cases "cur (step s) \<noteq> NUL \<and> cur (step s) \<noteq> CHR 0x0A")
    case True
    then have "length (m_script_ptr (snd (line_comment s))) \<le> length (m_script_ptr (step s))"
      using 1 by (subst line_comment.simps) simp
    then show ?thesis using step_le [of s] by linarith
  next
    case False
    then show ?thesis using step_le [of s] by (subst line_comment.simps) auto
  qed
qed

lemma block_comment_le: "length (m_script_ptr (snd (block_comment s))) \<le> length (m_script_ptr s)"
proof (induction s rule: block_comment.induct)
  case (1 s)
  have le: "length (m_script_ptr (step s)) \<le> length (m_script_ptr s)"
    by (rule step_le)
  show ?case
  proof (cases "cur (step s) = NUL")
    case True
    then show ?thesis using le by (subst block_comment.simps) simp
  next
    case nz: False
    show ?thesis
    proof (cases "cur (step s) = CHR 0x0A")
      case True
      then show ?thesis using 1(1) nz le by (subst block_comment.simps) simp
    next
      case nl: False
      show ?thesis
      proof (cases "cur (step s) = CHR ''/''")
        case True
        then show ?thesis
          using 1(2,3) nz nl le by (subst block_comment.simps) (auto simp: ptr_warning)
      next
        case False
        then show ?thesis using 1(4) nz nl le by (subst block_comment.simps) simp
      qed
    qed
  qed
qed

text \<open>
  How one round of a \<^verbatim>\<open>for (;;)\<close> loop ends: with \<^verbatim>\<open>continue\<close>, with \<^verbatim>\<open>break\<close>, or
  with \<^verbatim>\<open>return false\<close>.
\<close>

datatype loop_exit = continue | break | return_false

text \<open>
  The second half of a round of \<^verbatim>\<open>internal_read_whitespace\<close>: the comment that may
  follow the blanks. After a \<^verbatim>\<open>/* */\<close> comment the pointer is stepped twice.
\<close>

definition skip_comment :: "lexer \<Rightarrow> loop_exit \<times> lexer" where
  "skip_comment s1 =
     (if cur s1 = CHR ''/'' then
        (if cur1 s1 = CHR ''/'' then
           (let r2 = line_comment (step s1); s2 = step (line_inc (snd r2))
            in if \<not> fst r2 then (return_false, snd r2)
               else if cur s2 = NUL then (return_false, s2)
               else (continue, s2))
         else if cur1 s1 = CHR ''*'' then
           (let r2 = block_comment (step s1); s2 = step (snd r2); s3 = step s2
            in if \<not> fst r2 then (return_false, snd r2)
               else if cur s2 = NUL then (return_false, s2)
               else if cur s3 = NUL then (return_false, s3)
               else (continue, s3))
         else (break, s1))
      else (break, s1))"

lemma skip_comment_le:
  "length (m_script_ptr (snd (skip_comment s))) \<le> length (m_script_ptr s)"
proof -
  have l: "length (m_script_ptr (snd (line_comment (step s)))) \<le> length (m_script_ptr s)"
    using line_comment_le [of "step s"] step_le [of s] by linarith
  have b: "length (m_script_ptr (snd (block_comment (step s)))) \<le> length (m_script_ptr s)"
    using block_comment_le [of "step s"] step_le [of s] by linarith
  have sl: "length (m_script_ptr (step (line_inc (snd (line_comment (step s))))))
              \<le> length (m_script_ptr s)"
    using l by (simp add: step_def)
  have sb: "length (m_script_ptr (step (snd (block_comment (step s))))) \<le> length (m_script_ptr s)"
    using b step_le [of "snd (block_comment (step s))"] by linarith
  have sb2: "length (m_script_ptr (step (step (snd (block_comment (step s))))))
               \<le> length (m_script_ptr s)"
    using sb step_le [of "step (snd (block_comment (step s)))"] by linarith
  show ?thesis
    using l b sl sb sb2 by (simp add: skip_comment_def Let_def)
qed

lemma skip_comment_continue:
  assumes "fst (skip_comment s) = continue"
  shows "length (m_script_ptr (snd (skip_comment s))) < length (m_script_ptr s)"
proof -
  have c: "cur s = CHR ''/''"
    using assms by (auto simp: skip_comment_def split: if_splits)
  have d: "length (m_script_ptr (step s)) < length (m_script_ptr s)"
    using c by (intro cur_decreases) simp
  have l: "length (m_script_ptr (snd (line_comment (step s)))) \<le> length (m_script_ptr (step s))"
    by (rule line_comment_le)
  have b: "length (m_script_ptr (snd (block_comment (step s)))) \<le> length (m_script_ptr (step s))"
    by (rule block_comment_le)
  have sl: "length (m_script_ptr (step (line_inc (snd (line_comment (step s))))))
              \<le> length (m_script_ptr (step s))"
    using l by (simp add: step_def)
  have sb: "length (m_script_ptr (step (snd (block_comment (step s)))))
              \<le> length (m_script_ptr (step s))"
    using b step_le [of "snd (block_comment (step s))"] by linarith
  have sb2: "length (m_script_ptr (step (step (snd (block_comment (step s))))))
               \<le> length (m_script_ptr (step s))"
    using sb step_le [of "step (snd (block_comment (step s)))"] by linarith
  show ?thesis
    using assms d sl sb2 by (auto simp: skip_comment_def Let_def split: if_splits)
qed

text \<open>\<^verbatim>\<open>lexer::internal_read_whitespace\<close>.\<close>

function internal_read_whitespace :: "lexer \<Rightarrow> bool \<times> lexer" where
  "internal_read_whitespace s =
     (if \<not> fst (skip_blanks s) then (False, snd (skip_blanks s))
      else if fst (skip_comment (snd (skip_blanks s))) = continue
      then internal_read_whitespace (snd (skip_comment (snd (skip_blanks s))))
      else (fst (skip_comment (snd (skip_blanks s))) = break,
            snd (skip_comment (snd (skip_blanks s)))))"
  by pat_completeness auto
termination
proof (relation "measure (\<lambda>s. length (m_script_ptr s))", goal_cases)
  case 1
  show ?case by simp
next
  case (2 s)
  then show ?case
    using skip_comment_continue [of "snd (skip_blanks s)"] skip_blanks_le [of s] by simp
qed

declare internal_read_whitespace.simps [simp del]

lemma internal_read_whitespace_le:
  "length (m_script_ptr (snd (internal_read_whitespace s))) \<le> length (m_script_ptr s)"
proof (induction s rule: internal_read_whitespace.induct)
  case (1 s)
  have a: "length (m_script_ptr (snd (skip_comment (snd (skip_blanks s)))))
             \<le> length (m_script_ptr s)"
    using skip_blanks_le [of s] skip_comment_le [of "snd (skip_blanks s)"] by linarith
  show ?case
  proof (cases "fst (skip_blanks s) \<and> fst (skip_comment (snd (skip_blanks s))) = continue")
    case True
    then have "length (m_script_ptr (snd (internal_read_whitespace s)))
        \<le> length (m_script_ptr (snd (skip_comment (snd (skip_blanks s)))))"
      using 1 by (subst internal_read_whitespace.simps) simp
    then show ?thesis using a by linarith
  next
    case False
    then show ?thesis
      using a skip_blanks_le [of s] by (subst internal_read_whitespace.simps) auto
  qed
qed

lemma skip_blanks_True:
  "fst (skip_blanks s) \<Longrightarrow> \<not> schar (cur (snd (skip_blanks s))) \<le> schar CHR '' ''"
proof (induction s rule: skip_blanks.induct)
  case (1 s)
  show ?case
  proof (cases "schar (cur s) \<le> schar CHR '' ''")
    case True
    then have nz: "cur s \<noteq> NUL"
      using 1(2) by (subst (asm) skip_blanks.simps) (auto split: if_splits)
    have eq: "skip_blanks s = skip_blanks (step (if cur s = CHR 0x0A then line_inc s else s))"
      using True nz by (subst skip_blanks.simps) simp
    show ?thesis
      using 1(1) [OF True nz] 1(2) unfolding eq by simp
  next
    case False
    then show ?thesis by (subst skip_blanks.simps) simp
  qed
qed

lemma skip_comment_break:
  "fst (skip_comment s) = break \<Longrightarrow> snd (skip_comment s) = s"
  by (auto simp: skip_comment_def Let_def split: if_splits)

lemma internal_read_whitespace_True:
  "fst (internal_read_whitespace s)
   \<Longrightarrow> \<not> schar (cur (snd (internal_read_whitespace s))) \<le> schar CHR '' ''"
proof (induction s rule: internal_read_whitespace.induct)
  case (1 s)
  show ?case
  proof (cases "fst (skip_blanks s)")
    case False
    then show ?thesis using 1(2) by (subst (asm) internal_read_whitespace.simps) simp
  next
    case sb: True
    show ?thesis
    proof (cases "fst (skip_comment (snd (skip_blanks s))) = continue")
      case True
      have eq: "internal_read_whitespace s
                  = internal_read_whitespace (snd (skip_comment (snd (skip_blanks s))))"
        using sb True by (subst internal_read_whitespace.simps) simp
      show ?thesis using 1(1) 1(2) sb True unfolding eq by simp
    next
      case False
      have eq: "internal_read_whitespace s
                  = (fst (skip_comment (snd (skip_blanks s))) = break,
                     snd (skip_comment (snd (skip_blanks s))))"
        using sb False by (subst internal_read_whitespace.simps) simp
      have br: "fst (skip_comment (snd (skip_blanks s))) = break"
        using 1(2) unfolding eq by simp
      show ?thesis
        unfolding eq using skip_comment_break [OF br] skip_blanks_True [OF sb] by simp
    qed
  qed
qed

lemma internal_read_whitespace_not_NUL:
  "fst (internal_read_whitespace s) \<Longrightarrow> cur (snd (internal_read_whitespace s)) \<noteq> NUL"
  using internal_read_whitespace_True [of s] by (auto simp: schar_def)

subsection \<open>Escape characters\<close>

text \<open>
  The two digit loops of \<^verbatim>\<open>internal_read_escape_character\<close> accumulate \<^verbatim>\<open>val\<close> in an
  \<^verbatim>\<open>int\<close>, whose overflow is taken to wrap around. The hexadecimal loop accepts every
  letter, as the source does.
\<close>

definition is_escape_hex_digit :: "char \<Rightarrow> bool" where
  "is_escape_hex_digit c = (is_digit c \<or> is_upper c \<or> is_lower c)"

definition escape_hex_val :: "char \<Rightarrow> int" where
  "escape_hex_val c =
     (if is_digit c then schar c - schar CHR ''0''
      else if is_upper c then schar c - schar CHR ''A'' + 10
      else schar c - schar CHR ''a'' + 10)"

lemma is_digit_not_NUL: "is_digit c \<Longrightarrow> c \<noteq> NUL"
  by (auto simp: is_digit_def schar_def)

lemma is_upper_not_NUL: "is_upper c \<Longrightarrow> c \<noteq> NUL"
  by (auto simp: is_upper_def schar_def)

lemma is_lower_not_NUL: "is_lower c \<Longrightarrow> c \<noteq> NUL"
  by (auto simp: is_lower_def schar_def)

function escape_hex :: "int \<Rightarrow> lexer \<Rightarrow> int \<times> lexer" where
  "escape_hex val s =
     (if is_escape_hex_digit (cur s)
      then escape_hex (wrap_int (push_bit 4 val + escape_hex_val (cur s))) (step s)
      else (val, s))"
  by pat_completeness auto
termination
  by (relation "measure (\<lambda>(val, s). length (m_script_ptr s))")
     (auto simp: is_escape_hex_digit_def intro!: cur_decreases
           dest: is_digit_not_NUL is_upper_not_NUL is_lower_not_NUL)

declare escape_hex.simps [simp del]

function escape_dec :: "int \<Rightarrow> lexer \<Rightarrow> int \<times> lexer" where
  "escape_dec val s =
     (if is_digit (cur s)
      then escape_dec (wrap_int (val * 10 + digit_val (cur s))) (step s)
      else (val, s))"
  by pat_completeness auto
termination
  by (relation "measure (\<lambda>(val, s). length (m_script_ptr s))")
     (auto intro!: cur_decreases dest: is_digit_not_NUL)

declare escape_dec.simps [simp del]

text \<open>
  \<^verbatim>\<open>lexer::internal_read_escape_character\<close>; the third component is \<^verbatim>\<open>*out_char\<close>. After
  a digit loop the source steps the pointer back by one and, at the end of the function,
  forward again: the pointer is left where the loop stopped.
\<close>

definition escape_result :: "int \<Rightarrow> string \<Rightarrow> lexer \<Rightarrow> bool \<times> lexer \<times> char" where
  "escape_result val msg s =
     (if 255 < val then (True, warning msg s, char_of (255 :: int))
      else (True, s, char_of val))"

definition internal_read_escape_character :: "lexer \<Rightarrow> bool \<times> lexer \<times> char" where
  "internal_read_escape_character s0 =
     (let s = step s0; c = cur s
      in if c = CHR ''0'' then (True, step s, NUL)
         else if c = CHR ''n'' then (True, step s, CHR 0x0A)
         else if c = CHR ''r'' then (True, step s, CHR 0x0D)
         else if c = CHR ''t'' then (True, step s, CHR 0x09)
         else if c = CHR ''v'' then (True, step s, CHR 0x0B)
         else if c = CHR ''b'' then (True, step s, CHR 0x08)
         else if c = CHR ''f'' then (True, step s, CHR 0x0C)
         else if c = CHR ''a'' then (True, step s, CHR 0x07)
         else if c = CHR 0x5C then (True, step s, CHR 0x5C)
         else if c = CHR 0x27 then (True, step s, CHR 0x27)
         else if c = CHR 0x22 then (True, step s, CHR 0x22)
         else if c = CHR ''?'' then (True, step s, CHR ''?'')
         else if c = CHR ''x'' then
           (let r = escape_hex 0 (step s)
            in escape_result (fst r)
                 ''hexadecimal value in escape character is too big! Truncating to 0xFF...''
                 (snd r))
         else if \<not> is_digit c then
           (False, snd (error ''unknown/invalid escape char!'' s), NUL)
         else
           (let r = escape_dec 0 s
            in escape_result (fst r)
                 ''value in escape character is too big! Truncating to 0xFF...'' (snd r)))"


lemma escape_hex_le: "length (m_script_ptr (snd (escape_hex val s))) \<le> length (m_script_ptr s)"
proof (induction val s rule: escape_hex.induct)
  case (1 val s)
  show ?case
  proof (cases "is_escape_hex_digit (cur s)")
    case True
    then have "length (m_script_ptr (snd (escape_hex val s))) \<le> length (m_script_ptr (step s))"
      using 1 by (subst escape_hex.simps) simp
    then show ?thesis using step_le [of s] by linarith
  next
    case False
    then show ?thesis by (subst escape_hex.simps) simp
  qed
qed

lemma escape_dec_le: "length (m_script_ptr (snd (escape_dec val s))) \<le> length (m_script_ptr s)"
proof (induction val s rule: escape_dec.induct)
  case (1 val s)
  show ?case
  proof (cases "is_digit (cur s)")
    case True
    then have "length (m_script_ptr (snd (escape_dec val s))) \<le> length (m_script_ptr (step s))"
      using 1 by (subst escape_dec.simps) simp
    then show ?thesis using step_le [of s] by linarith
  next
    case False
    then show ?thesis by (subst escape_dec.simps) simp
  qed
qed

lemma escape_result_ptr:
  "m_script_ptr (fst (snd (escape_result val msg s))) = m_script_ptr s"
  by (simp add: escape_result_def)

lemma internal_read_escape_character_le:
  "length (m_script_ptr (fst (snd (internal_read_escape_character s))))
     \<le> length (m_script_ptr (step s))"
proof -
  have a: "length (m_script_ptr (step (step s))) \<le> length (m_script_ptr (step s))"
    by (rule step_le)
  have b: "length (m_script_ptr (snd (escape_hex 0 (step (step s)))))
             \<le> length (m_script_ptr (step s))"
    using escape_hex_le [of 0 "step (step s)"] a by linarith
  have c: "length (m_script_ptr (snd (escape_dec 0 (step s)))) \<le> length (m_script_ptr (step s))"
    by (rule escape_dec_le)
  show ?thesis
    using a b c
    by (simp add: internal_read_escape_character_def Let_def escape_result_ptr error_def)
qed

subsection \<open>Strings and character literals\<close>

text \<open>\<open>rewind s1 s2\<close> is \<open>s2\<close> with the position and the line that were saved at \<open>s1\<close>.\<close>

definition rewind :: "lexer \<Rightarrow> lexer \<Rightarrow> lexer" where
  "rewind s1 s2 = s2\<lparr>m_script_ptr := m_script_ptr s1, m_lexer_line_num := m_lexer_line_num s1\<rparr>"

text \<open>
  The branch of \<^verbatim>\<open>internal_read_string\<close> for a trailing quote, with the pointer on the
  quote: it ends the string (\<^verbatim>\<open>break\<close>), or finds the leading quote of a string to
  concatenate and steps over it (\<^verbatim>\<open>continue\<close>).
\<close>

definition string_quote_step :: "char \<Rightarrow> lexer \<Rightarrow> loop_exit \<times> lexer" where
  "string_quote_step quote s =
     (let s1 = step s
      in if lex_flag s1 flags_no_string_concat \<and>
            (\<not> lex_flag s1 flags_allow_backslash_string_concat \<or> quote \<noteq> CHR 0x22)
         then (break, s1)
         else
           (let r = internal_read_whitespace s1; s2 = snd r
            in if \<not> fst r then (break, rewind s1 s2)
               else if lex_flag s2 flags_no_string_concat then
                 (if cur s2 \<noteq> CHR 0x5C then (break, rewind s1 s2)
                  else
                    (let r3 = internal_read_whitespace (step s2); s3 = snd r3
                     in if \<not> fst r3 \<or> cur s3 \<noteq> quote
                        then (return_false,
                              snd (error ''expecting string after backslash terminated line!'' s3))
                        else (continue, step s3)))
               else if cur s2 \<noteq> quote then (break, rewind s1 s2)
               else (continue, step s2)))"

lemma string_quote_step_continue:
  assumes "cur s = quote" "fst (string_quote_step quote s) = continue"
  shows "length (m_script_ptr (snd (string_quote_step quote s))) < length (m_script_ptr s)"
proof -
  define s1 where "s1 = step s"
  define s2 where "s2 = snd (internal_read_whitespace s1)"
  define s3 where "s3 = snd (internal_read_whitespace (step s2))"
  have w1: "fst (internal_read_whitespace s1)"
    using assms(2) unfolding string_quote_step_def Let_def s1_def
    by (auto split: if_splits)
  have q: "cur s2 = quote \<or> (fst (internal_read_whitespace (step s2)) \<and> cur s3 = quote)"
    using assms(2) unfolding string_quote_step_def Let_def s1_def s2_def s3_def
    by (auto split: if_splits)
  have "quote \<noteq> NUL"
    using q internal_read_whitespace_not_NUL [OF w1]
      internal_read_whitespace_not_NUL [of "step s2"]
    unfolding s2_def s3_def by auto
  then have d: "length (m_script_ptr s1) < length (m_script_ptr s)"
    unfolding s1_def using assms(1) by (intro cur_decreases) simp
  have l2: "length (m_script_ptr s2) \<le> length (m_script_ptr s1)"
    unfolding s2_def by (rule internal_read_whitespace_le)
  have l3: "length (m_script_ptr s3) \<le> length (m_script_ptr s2)"
    unfolding s3_def using internal_read_whitespace_le [of "step s2"] step_le [of s2] by linarith
  have r: "snd (string_quote_step quote s) = step s2 \<or> snd (string_quote_step quote s) = step s3"
    using assms(2) unfolding string_quote_step_def Let_def s1_def s2_def s3_def
    by (auto split: if_splits)
  show ?thesis
    using r d l2 l3 step_le [of s2] step_le [of s3] by auto
qed

text \<open>
  The \<^verbatim>\<open>for (;;)\<close> of \<^verbatim>\<open>internal_read_string\<close>. The first component of the result is
  \<open>True\<close> when the loop is left by \<^verbatim>\<open>break\<close> and \<open>False\<close> when the function returns
  false from inside it.
\<close>

function string_loop :: "char \<Rightarrow> lexer \<Rightarrow> token \<Rightarrow> bool \<times> lexer \<times> token" where
  "string_loop quote s tok =
     (if cur s = CHR 0x5C \<and> \<not> lex_flag s flags_no_string_escape_chars then
        (if \<not> fst (internal_read_escape_character s)
         then (False, fst (snd (internal_read_escape_character s)), tok)
         else string_loop quote (fst (snd (internal_read_escape_character s)))
                (append_char (snd (snd (internal_read_escape_character s))) tok))
      else if cur s = quote then
        (if fst (string_quote_step quote s) = continue
         then string_loop quote (snd (string_quote_step quote s)) tok
         else (fst (string_quote_step quote s) = break, snd (string_quote_step quote s), tok))
      else if cur s = NUL then (False, snd (error ''missing trailing quote!'' s), tok)
      else if cur s = CHR 0x0A then (False, snd (error ''newline inside string!'' s), tok)
      else string_loop quote (step s) (append_char (cur s) tok))"
  by pat_completeness auto
termination
proof (relation "measure (\<lambda>(quote, s, tok). length (m_script_ptr s))", goal_cases)
  case 1
  show ?case by simp
next
  case (2 quote s tok)
  have "length (m_script_ptr (fst (snd (internal_read_escape_character s))))
          \<le> length (m_script_ptr (step s))"
    by (rule internal_read_escape_character_le)
  also have "\<dots> < length (m_script_ptr s)"
    using 2 by (intro cur_decreases) auto
  finally show ?case by simp
next
  case (3 quote s tok)
  then show ?case using string_quote_step_continue [of s quote] by simp
next
  case (4 quote s tok)
  then show ?case using cur_decreases [of s] by simp
qed

declare string_loop.simps [simp del]

text \<open>\<^verbatim>\<open>lexer::internal_read_string\<close>.\<close>

definition internal_read_string :: "char \<Rightarrow> lexer \<Rightarrow> token \<Rightarrow> bool \<times> lexer \<times> token" where
  "internal_read_string quote s tok =
     (let tok1 = (if quote = CHR 0x22 then set_type type_string tok
                  else set_type type_literal tok);
          r = string_loop quote (step s) tok1;
          s2 = fst (snd r); tok2 = snd (snd r)
      in if \<not> fst r then (False, s2, tok2)
         else if m_type tok2 = type_literal
                 \<and> \<not> lex_flag s2 flags_allow_multi_char_literals \<and> 1 < get_length tok2
         then (False, snd (error ''char literal is not one character long!'' s2), tok2)
         else (True, s2, tok2))"

subsection \<open>Names\<close>

definition valid_name_char :: "char \<Rightarrow> bool" where
  "valid_name_char c = (is_lower c \<or> is_upper c \<or> is_digit c \<or> c = CHR ''_'')"

definition strings_only :: "char \<Rightarrow> 32 word \<Rightarrow> bool" where
  "strings_only c lex_flags = (has_flag lex_flags flags_only_strings \<and> c = CHR ''-'')"

definition allowing_path_names :: "char \<Rightarrow> 32 word \<Rightarrow> bool" where
  "allowing_path_names c lex_flags =
     (has_flag lex_flags flags_allow_path_names
      \<and> (c = CHR ''/'' \<or> c = CHR 0x5C \<or> c = CHR '':'' \<or> c = CHR ''.''))"

definition name_continues :: "lexer \<Rightarrow> bool" where
  "name_continues s =
     (valid_name_char (cur s) \<or> strings_only (cur s) (m_lexer_flags s)
      \<or> allowing_path_names (cur s) (m_lexer_flags s))"

lemma name_continues_not_NUL: "name_continues s \<Longrightarrow> cur s \<noteq> NUL"
  by (auto simp: name_continues_def valid_name_char_def strings_only_def
        allowing_path_names_def dest: is_digit_not_NUL is_upper_not_NUL is_lower_not_NUL)

text \<open>The \<^verbatim>\<open>do ... while\<close> of \<^verbatim>\<open>internal_read_name_ident\<close>.\<close>

function name_loop :: "lexer \<Rightarrow> token \<Rightarrow> lexer \<times> token" where
  "name_loop s tok =
     (if name_continues (step s) then name_loop (step s) (append_char (cur s) tok)
      else (step s, append_char (cur s) tok))"
  by pat_completeness auto
termination
  by (relation "measure (\<lambda>(s, tok). length (m_script_ptr s))")
     (auto intro!: step_decreases dest: name_continues_not_NUL)

declare name_loop.simps [simp del]

definition internal_read_name_ident :: "lexer \<Rightarrow> token \<Rightarrow> bool \<times> lexer \<times> token" where
  "internal_read_name_ident s tok =
     (let r = name_loop s (set_type type_identifier tok); s1 = fst r; tok1 = snd r
      in if token_eq_string tok1 ''true'' \<or> token_eq_string tok1 ''false''
         then (True, s1, set_flags flags_boolean tok1)
         else (True, s1, set_flags 0 tok1))"


subsection \<open>Numbers\<close>

text \<open>
  \<^verbatim>\<open>out_token->append(*m_script_ptr++)\<close>, and the loops of \<^verbatim>\<open>internal_read_number\<close> of
  the form \<^verbatim>\<open>while (P(c1)) { out_token->append(c1); c1 = *(++m_script_ptr); }\<close>, where
  \<^verbatim>\<open>c1\<close> is the character at the pointer. No \<open>P\<close> of the source holds of NUL.
\<close>

definition take_char :: "lexer \<times> token \<Rightarrow> lexer \<times> token" where
  "take_char x = (step (fst x), append_char (cur (fst x)) (snd x))"

function read_while :: "(char \<Rightarrow> bool) \<Rightarrow> lexer \<times> token \<Rightarrow> lexer \<times> token" where
  "read_while P x =
     (if P (cur (fst x)) \<and> cur (fst x) \<noteq> NUL then read_while P (take_char x) else x)"
  by pat_completeness auto
termination
  by (relation "measure (\<lambda>(P, x). length (m_script_ptr (fst x)))")
     (auto simp: take_char_def intro!: cur_decreases)

declare read_while.simps [simp del]

definition is_hex_digit :: "char \<Rightarrow> bool" where
  "is_hex_digit c =
     (is_digit c \<or> (schar CHR ''a'' \<le> schar c \<and> schar c \<le> schar CHR ''f'')
      \<or> (schar CHR ''A'' \<le> schar c \<and> schar c \<le> schar CHR ''F''))"

definition is_bin_digit :: "char \<Rightarrow> bool" where
  "is_bin_digit c = (c = CHR ''0'' \<or> c = CHR ''1'')"

definition is_oct_digit :: "char \<Rightarrow> bool" where
  "is_oct_digit c = (schar CHR ''0'' \<le> schar c \<and> schar c \<le> schar CHR ''7'')"

text \<open>The loop that reads digits and counts the dots.\<close>

function digits_and_dots :: "int \<Rightarrow> lexer \<times> token \<Rightarrow> int \<times> lexer \<times> token" where
  "digits_and_dots dot x =
     (if is_digit (cur (fst x)) then digits_and_dots dot (take_char x)
      else if cur (fst x) = CHR ''.'' then digits_and_dots (dot + 1) (take_char x)
      else (dot, x))"
  by pat_completeness auto
termination
  by (relation "measure (\<lambda>(dot, x). length (m_script_ptr (fst x)))")
     (auto simp: take_char_def intro!: cur_decreases dest: is_digit_not_NUL)

declare digits_and_dots.simps [simp del]

text \<open>\<^verbatim>\<open>lexer::internal_check_string\<close>: the C string is found at the pointer.\<close>

definition internal_check_string :: "string \<Rightarrow> lexer \<Rightarrow> bool" where
  "internal_check_string str s = prefix (c_str str) (m_script_ptr s)"

text \<open>
  The exponent and the float exceptions. The result is \<open>(ok, token_flags, lexer, token)\<close>.
  The five \<^verbatim>\<open>internal_check_string\<close> tests are made with the pointer on the
  \<^verbatim>\<open>#\<close>, as in the source.
\<close>

definition float_exception_flags :: "lexer \<Rightarrow> 32 word \<times> nat" where
  "float_exception_flags s =
     (if internal_check_string ''INF'' s then (flags_infinite, 4)
      else if internal_check_string ''IND'' s then (flags_indefinite, 4)
      else if internal_check_string ''NAN'' s then (flags_nan, 4)
      else if internal_check_string ''QNAN'' s then (flags_nan, 5)
      else if internal_check_string ''SNAN'' s then (flags_nan, 5)
      else (0, 4))"

definition read_float_part :: "lexer \<times> token \<Rightarrow> bool \<times> 32 word \<times> lexer \<times> token" where
  "read_float_part x =
     (let token_flags = flags_decimal OR flags_floating_point
      in if cur (fst x) = CHR ''e'' then
           (let x1 = take_char x;
                x2 = (if cur (fst x1) = CHR ''-'' then take_char x1
                      else if cur (fst x1) = CHR ''+'' then take_char x1
                      else x1);
                x3 = read_while is_digit x2
            in (True, token_flags, x3))
         else if cur (fst x) = CHR ''#'' then
           (let fe = float_exception_flags (fst x);
                x1 = (take_char ^^ snd fe) x;
                x2 = read_while is_digit x1
            in if \<not> lex_flag (fst x2) flags_allow_float_exceptions
               then (False, token_flags OR fst fe,
                     snd (error ''floating-point exception scanned'' (fst x2)), snd x2)
               else (True, token_flags OR fst fe, x2))
         else (True, token_flags, x))"

text \<open>The decimal branch: an integer, a floating-point number or an IP address.\<close>

definition read_decimal_part :: "lexer \<times> token \<Rightarrow> bool \<times> 32 word \<times> lexer \<times> token" where
  "read_decimal_part x0 =
     (let r = digits_and_dots 0 x0; x = snd r;
          dot = (if cur (fst x) = CHR ''e'' \<and> fst r = 0 then fst r + 1 else fst r)
      in if dot = 1 then read_float_part x
         else if 1 < dot then
           (if \<not> lex_flag (fst x) flags_allow_ip_addresses
            then (False, 0, snd (error ''more than one dot in number!'' (fst x)), snd x)
            else if dot \<noteq> 3
            then (False, 0, snd (error ''IP address should have three dots!'' (fst x)), snd x)
            else (True, flags_ip_address, x))
         else (True, flags_decimal OR flags_integer, x))"

text \<open>The integer suffixes: the \<^verbatim>\<open>for\<close> loop of at most two rounds.\<close>

fun int_suffix :: "nat \<Rightarrow> 32 word \<times> lexer \<Rightarrow> 32 word \<times> lexer" where
  "int_suffix 0 y = y"
| "int_suffix (Suc n) y =
     (if cur (snd y) = CHR ''u'' \<or> cur (snd y) = CHR ''U''
      then int_suffix n (flags_unsigned_integer, step (snd y))
      else if cur (snd y) = CHR ''l'' \<or> cur (snd y) = CHR ''L''
      then int_suffix n (fst y, step (snd y))
      else y)"

text \<open>The type suffixes and the port of an IP address; sets the token's type and flags.\<close>

definition number_tail :: "32 word \<Rightarrow> lexer \<times> token \<Rightarrow> bool \<times> lexer \<times> token" where
  "number_tail token_flags x =
     (let s = fst x; tok = snd x; c1 = cur s;
          r = (if has_flag token_flags flags_floating_point then
                 (if schar CHR '' '' < schar c1 then
                    (if c1 = CHR ''f'' \<or> c1 = CHR ''F''
                     then (token_flags OR flags_single_precision, step s, tok)
                     else if c1 = CHR ''l'' \<or> c1 = CHR ''L''
                     then (token_flags OR flags_extended_precision, step s, tok)
                     else (token_flags OR flags_double_precision, s, tok))
                  else (token_flags OR flags_double_precision, s, tok))
               else if has_flag token_flags flags_integer then
                 (let y = (if schar CHR '' '' < schar c1
                           then int_suffix 2 (flags_signed_integer, s)
                           else (flags_signed_integer, s))
                  in (token_flags OR fst y, snd y, tok))
               else if has_flag token_flags flags_ip_address then
                 (if c1 = CHR '':''
                  then (let x1 = read_while is_digit (take_char x)
                        in (token_flags OR flags_ip_port, fst x1, snd x1))
                  else (token_flags, s, tok))
               else (token_flags, s, tok))
      in (True, fst (snd r), set_flags (fst r) (set_type type_number (snd (snd r)))))"

text \<open>\<^verbatim>\<open>lexer::internal_read_number\<close>.\<close>

definition internal_read_number :: "lexer \<Rightarrow> token \<Rightarrow> bool \<times> lexer \<times> token" where
  "internal_read_number s tok =
     (let c1 = cur s; c2 = cur1 s
      in if c1 = CHR ''0'' \<and> c2 \<noteq> CHR ''.'' then
           (if c2 = CHR ''x'' \<or> c2 = CHR ''X'' then
              number_tail (flags_hexadecimal OR flags_integer)
                (read_while is_hex_digit (take_char (take_char (s, tok))))
            else if c2 = CHR ''b'' \<or> c2 = CHR ''B'' then
              number_tail (flags_binary OR flags_integer)
                (read_while is_bin_digit (take_char (take_char (s, tok))))
            else
              number_tail (flags_octal OR flags_integer)
                (read_while is_oct_digit (take_char (s, tok))))
         else
           (let r = read_decimal_part (s, tok)
            in if \<not> fst r then (False, snd (snd r))
               else number_tail (fst (snd r)) (snd (snd r))))"

subsection \<open>Punctuation\<close>

text \<open>
  A \<^verbatim>\<open>punctuation_def\<close> pairs a C string (\<open>None\<close> is the null pointer) with a
  \<^verbatim>\<open>punctuation_id\<close>, an enumeration over \<^verbatim>\<open>std::uint8_t\<close> that is represented by its
  enumerator values; the field \<^verbatim>\<open>id\<close> is named \<open>punct_id\<close>. The shared tables \<^verbatim>\<open>m_punctuations\<close>, \<^verbatim>\<open>m_punctuations_table\<close>
  and \<^verbatim>\<open>m_punctuations_next\<close> are static members of the class; here they are a value that
  the scanning functions take as an argument.
\<close>

type_synonym punctuation_id = nat

record punctuation_def =
  str :: "string option"
  punct_id :: punctuation_id

record punct_tables =
  m_punctuations :: "punctuation_def list"
  m_punctuations_table :: "int list"
  m_punctuations_next :: "int list"

text \<open>\<^verbatim>\<open>std::strlen\<close>, \<^verbatim>\<open>static_cast<unsigned>\<close> of a character used as an index, and
  \<^verbatim>\<open>static_cast<punct_table_index_type>\<close> of a \<^verbatim>\<open>std::size_t\<close>.\<close>

definition strlen :: "string \<Rightarrow> nat" where
  "strlen chars = length (c_str chars)"

definition table_index :: "char \<Rightarrow> nat" where
  "table_index c = nat (schar c mod 2 ^ 32)"

definition to_index :: "nat \<Rightarrow> int" where
  "to_index i = sint (word_of_nat i :: 16 word)"

text \<open>
  The inner loop of \<^verbatim>\<open>set_punctuation_tables\<close> follows the chain of the new punctuation's
  first character. It returns the \<^verbatim>\<open>n\<close> and the \<^verbatim>\<open>last_punct_id\<close> it is left with:
  \<open>0 \<le> n\<close> after the \<^verbatim>\<open>break\<close>. A chain that never ends and a read outside an array
  are both the result \<open>None\<close>.
\<close>

partial_function (option) find_slot ::
  "punctuation_def list \<Rightarrow> int list \<Rightarrow> nat \<Rightarrow> int \<Rightarrow> int \<Rightarrow> (int \<times> int) option" where
  "find_slot punctuations punctuations_next new_len n last_punct_id =
     (if n < 0 then Some (n, last_punct_id)
      else if \<not> nat n < length punctuations \<or> \<not> nat n < length punctuations_next then None
      else
        (case str (punctuations ! nat n) of
           None \<Rightarrow> None
         | Some chars \<Rightarrow>
             if strlen chars < new_len then Some (n, last_punct_id)
             else find_slot punctuations punctuations_next new_len
                    (punctuations_next ! nat n) n))"

text \<open>One round of the outer loop, for the punctuation of index \<open>i\<close>.\<close>

definition insert_punct ::
  "punctuation_def list \<Rightarrow> nat \<Rightarrow> int list \<times> int list \<Rightarrow> (int list \<times> int list) option" where
  "insert_punct punctuations i tabs =
     (let punctuations_table = fst tabs; punctuations_next = snd tabs
      in case str (punctuations ! i) of
           None \<Rightarrow> Some tabs
         | Some chars \<Rightarrow>
             (let c = table_index (peek chars)
              in if \<not> c < length punctuations_table \<or> \<not> i < length punctuations_next then None
                 else
                   (case find_slot punctuations punctuations_next (strlen chars)
                           (punctuations_table ! c) (- 1) of
                      None \<Rightarrow> None
                    | Some (n, last_punct_id) \<Rightarrow>
                        (let next1 = punctuations_next[i := (if 0 \<le> n then n else - 1)]
                         in if 0 \<le> last_punct_id
                            then if nat last_punct_id < length next1
                                 then Some (punctuations_table,
                                            next1[nat last_punct_id := to_index i])
                                 else None
                            else Some (punctuations_table[c := to_index i], next1)))))"

definition set_punctuation_tables :: "punctuation_def list \<Rightarrow> punct_tables option" where
  "set_punctuation_tables punctuations =
     map_option
       (\<lambda>tabs. \<lparr>m_punctuations = punctuations, m_punctuations_table = fst tabs,
                 m_punctuations_next = snd tabs\<rparr>)
       (fold (\<lambda>i tabs. Option.bind tabs (insert_punct punctuations i))
          [0..<length punctuations]
          (Some (replicate 256 (- 1), replicate (length punctuations) (- 1))))"

text \<open>
  The match loop of \<^verbatim>\<open>internal_read_punctuation\<close>: the \<^verbatim>\<open>l\<close> at which
  \<^verbatim>\<open>for (l = 0; chars[l] && m_script_ptr[l]; ++l)\<close> stops.
\<close>

fun match_len :: "string \<Rightarrow> string \<Rightarrow> nat" where
  "match_len (c # chars) (d # script) =
     (if c = NUL \<or> d = NUL \<or> d \<noteq> c then 0 else Suc (match_len chars script))"
| "match_len chars script = 0"

partial_function (option) punct_loop ::
  "punct_tables \<Rightarrow> int \<Rightarrow> lexer \<Rightarrow> token \<Rightarrow> (bool \<times> lexer \<times> token) option" where
  "punct_loop pt n s tok =
     (if n < 0 then Some (False, s, tok)
      else if \<not> nat n < length (m_punctuations pt) \<or> \<not> nat n < length (m_punctuations_next pt)
      then None
      else
        (case str (m_punctuations pt ! nat n) of
           None \<Rightarrow> punct_loop pt (m_punctuations_next pt ! nat n) s tok
         | Some chars \<Rightarrow>
             (let l = match_len chars (m_script_ptr s)
              in if peek (drop l chars) = NUL
                 then Some (True, s\<lparr>m_script_ptr := drop l (m_script_ptr s)\<rparr>,
                            set_flags (word_of_nat (punct_id (m_punctuations pt ! nat n)))
                              (set_type type_punctuation
                                 (fold append_char (take (Suc l) chars) tok)))
                 else punct_loop pt (m_punctuations_next pt ! nat n) s tok)))"

declare find_slot.simps [code] punct_loop.simps [code]

definition internal_read_punctuation ::
  "punct_tables \<Rightarrow> lexer \<Rightarrow> token \<Rightarrow> (bool \<times> lexer \<times> token) option" where
  "internal_read_punctuation pt s tok =
     (if \<not> table_index (cur s) < length (m_punctuations_table pt) then None
      else punct_loop pt (m_punctuations_table pt ! table_index (cur s)) s tok)"


subsection \<open>Reading tokens\<close>

definition is_name_start :: "char \<Rightarrow> bool" where
  "is_name_start c = (is_lower c \<or> is_upper c \<or> c = CHR ''_'')"

definition is_quote :: "char \<Rightarrow> bool" where
  "is_quote c = (c = CHR 0x27 \<or> c = CHR 0x22)"

text \<open>
  The second half of \<^verbatim>\<open>lexer::next_token\<close>, from \<^verbatim>\<open>int c = *m_script_ptr;\<close> on: the
  choice of the sub-scanner by the first character and the flags.
\<close>

definition dispatch_token ::
  "punct_tables \<Rightarrow> lexer \<Rightarrow> token \<Rightarrow> (bool \<times> lexer \<times> token) option" where
  "dispatch_token pt s2 tok =
     (let c = cur s2
      in if lex_flag s2 flags_only_strings then
           (if is_quote c then Some (internal_read_string c s2 tok)
            else Some (internal_read_name_ident s2 tok))
         else if is_digit c \<or> (c = CHR ''.'' \<and> is_digit (cur1 s2)) then
           (let r1 = internal_read_number s2 tok
            in if \<not> fst r1 then Some r1
               else if lex_flag (fst (snd r1)) flags_allow_number_names
                       \<and> is_name_start (cur (fst (snd r1)))
               then Some (internal_read_name_ident (fst (snd r1)) (snd (snd r1)))
               else Some r1)
         else if is_quote c then Some (internal_read_string c s2 tok)
         else if is_name_start c then Some (internal_read_name_ident s2 tok)
         else if lex_flag s2 flags_allow_path_names
                 \<and> (c = CHR ''/'' \<or> c = CHR 0x5C \<or> c = CHR ''.'')
         then Some (internal_read_name_ident s2 tok)
         else
           (case internal_read_punctuation pt s2 tok of
              None \<Rightarrow> None
            | Some r1 \<Rightarrow>
                if \<not> fst r1
                then Some (False,
                           snd (error ''unknown punctuation character'' (fst (snd r1))),
                           snd (snd r1))
                else Some r1))"

text \<open>
  \<^verbatim>\<open>lexer::next_token\<close>. The token argument is \<^verbatim>\<open>*out_token\<close> as the caller passes it
  in, the token of the result is \<^verbatim>\<open>*out_token\<close> afterwards. The result is \<open>None\<close> only
  when the walk through the punctuation tables has no result.
\<close>

definition save_position :: "lexer \<Rightarrow> lexer" where
  "save_position s =
     s\<lparr>m_last_line_num := m_lexer_line_num s, m_last_script_ptr := m_script_ptr s,
       m_whitespace_start_ptr := Some (m_script_ptr s)\<rparr>"

definition start_token :: "lexer \<Rightarrow> token \<Rightarrow> token" where
  "start_token s2 out_token =
     set_lines_crossed (m_lexer_line_num s2 - m_last_line_num s2)
       (set_line_number (m_lexer_line_num s2) (token_clear out_token))"

definition next_token ::
  "punct_tables \<Rightarrow> lexer \<Rightarrow> token \<Rightarrow> (bool \<times> lexer \<times> token) option" where
  "next_token pt s out_token =
     (if \<not> m_initialized s
      then Some (False, snd (error ''lexer not properly initialized; no script loaded!'' s),
                 out_token)
      else if m_token_available s
      then Some (True,
                 s\<lparr>m_leftover_token := token_clear (m_leftover_token s),
                   m_token_available := False\<rparr>,
                 m_leftover_token s)
      else
        (let r = internal_read_whitespace (save_position s)
         in if \<not> fst r then Some (False, snd r, out_token)
            else
              (let s2 = (snd r)\<lparr>m_whitespace_end_ptr := Some (m_script_ptr (snd r))\<rparr>
               in dispatch_token pt s2 (start_token s2 out_token))))"

text \<open>
  \<^verbatim>\<open>m_script_ptr = m_last_script_ptr; m_line_num = m_last_line_num;\<close>, the rewinding
  of the functions below.
\<close>

definition unread :: "lexer \<Rightarrow> lexer" where
  "unread s = s\<lparr>m_script_ptr := m_last_script_ptr s, m_lexer_line_num := m_last_line_num s\<rparr>"

definition check_token_string ::
  "punct_tables \<Rightarrow> string \<Rightarrow> lexer \<Rightarrow> token \<Rightarrow> (bool \<times> lexer \<times> token) option" where
  "check_token_string pt string s out_token =
     (case next_token pt s out_token of
        None \<Rightarrow> None
      | Some r \<Rightarrow>
          if \<not> fst r then Some (False, snd r)
          else if token_eq_string (snd (snd r)) string then Some (True, snd r)
          else Some (False, unread (fst (snd r)), snd (snd r)))"

text \<open>The flag test of \<^verbatim>\<open>check_token_type\<close> and \<^verbatim>\<open>peek_token_type\<close>.\<close>

definition token_has_type :: "token \<Rightarrow> token_type \<Rightarrow> 32 word \<Rightarrow> bool" where
  "token_has_type tok type subtype_flags =
     (m_type tok = type \<and> m_flags tok AND subtype_flags = subtype_flags)"

definition check_token_type ::
  "punct_tables \<Rightarrow> token_type \<Rightarrow> 32 word \<Rightarrow> lexer \<Rightarrow> token \<Rightarrow> (bool \<times> lexer \<times> token) option"
  where
  "check_token_type pt type subtype_flags s out_token =
     (case next_token pt s empty_token of
        None \<Rightarrow> None
      | Some r \<Rightarrow>
          if \<not> fst r then Some (False, fst (snd r), out_token)
          else if token_has_type (snd (snd r)) type subtype_flags then Some (True, snd r)
          else Some (False, unread (fst (snd r)), out_token))"

definition peek_token_string ::
  "punct_tables \<Rightarrow> string \<Rightarrow> lexer \<Rightarrow> (bool \<times> lexer) option" where
  "peek_token_string pt string s =
     (case next_token pt s empty_token of
        None \<Rightarrow> None
      | Some r \<Rightarrow>
          if \<not> fst r then Some (False, fst (snd r))
          else Some (token_eq_string (snd (snd r)) string, unread (fst (snd r))))"

definition peek_token_type ::
  "punct_tables \<Rightarrow> token_type \<Rightarrow> 32 word \<Rightarrow> lexer \<Rightarrow> token \<Rightarrow> (bool \<times> lexer \<times> token) option"
  where
  "peek_token_type pt type subtype_flags s out_token =
     (case next_token pt s empty_token of
        None \<Rightarrow> None
      | Some r \<Rightarrow>
          if \<not> fst r then Some (False, fst (snd r), out_token)
          else if token_has_type (snd (snd r)) type subtype_flags
          then Some (True, unread (fst (snd r)), snd (snd r))
          else Some (False, unread (fst (snd r)), out_token))"

subsection \<open>The default punctuation set\<close>

definition pdef :: "string \<Rightarrow> punctuation_id \<Rightarrow> punctuation_def" where
  "pdef chars i = \<lparr>str = Some chars, punct_id = i\<rparr>"

definition default_punctuations :: "punctuation_def list" where
  "default_punctuations =
     [\<lparr>str = None, punct_id = 0\<rparr>,
      pdef ''='' 1, pdef ''+'' 2, pdef ''-'' 3, pdef ''*'' 4, pdef ''/'' 5, pdef ''%'' 6,
      pdef ''>>'' 7, pdef ''<<'' 8, pdef ''+='' 9, pdef ''-='' 10, pdef ''*='' 11,
      pdef ''/='' 12, pdef ''%='' 13, pdef ''>>='' 14, pdef ''<<='' 15, pdef ''&&'' 16,
      pdef ''||'' 17, pdef ''!'' 18, pdef ''=='' 19, pdef ''!='' 20, pdef ''>'' 21,
      pdef ''<'' 22, pdef ''>='' 23, pdef ''<='' 24, pdef ''++'' 25, pdef ''--'' 26,
      pdef ''&'' 27, pdef ''|'' 28, pdef ''^'' 29, pdef ''~'' 30, pdef ''&='' 31,
      pdef ''|='' 32, pdef ''^='' 33, pdef ''.'' 34, pdef ''->'' 35, pdef ''::'' 36,
      pdef ''.*'' 37, pdef '','' 38, pdef '';'' 39, pdef '':'' 40, pdef ''?'' 41,
      pdef ''...'' 42, pdef [CHR 0x5C] 43, pdef ''('' 44, pdef '')'' 45, pdef ''['' 46,
      pdef '']'' 47, pdef ''{'' 48, pdef ''}'' 49, pdef ''#'' 50, pdef ''##'' 51,
      pdef ''$'' 52]"


subsection \<open>A lexer on a buffer, with the default punctuation tables\<close>

text \<open>
  The constructor \<^verbatim>\<open>lexer(ptr, length, filename, flags, starting_line)\<close>, and the
  tables that \<^verbatim>\<open>set_default_punctuation_tables\<close> builds from
  \<^verbatim>\<open>default_punctuations\<close> (lemma \<open>default_tables_built\<close> below).
\<close>

definition lexer_from_memory :: "string \<Rightarrow> 32 word \<Rightarrow> 32 word \<Rightarrow> lexer" where
  "lexer_from_memory ptr flags starting_line =
     snd (init_from_memory ptr flags starting_line new_lexer)"

definition default_tables :: punct_tables where
  "default_tables =
     (case set_punctuation_tables default_punctuations of
        Some pt \<Rightarrow> pt
      | None \<Rightarrow> \<lparr>m_punctuations = default_punctuations, m_punctuations_table = [],
                  m_punctuations_next = []\<rparr>)"

subsection \<open>Decimal notation\<close>

text \<open>The number that a string of decimal digits denotes, for the statements below.\<close>

definition decimal_number :: "string \<Rightarrow> nat" where
  "decimal_number ds = foldl (\<lambda>v c. 10 * v + nat (digit_val c)) 0 ds"

text \<open>
  The number that a run of digits and letters after \<^verbatim>\<open>\\x\<close> denotes in base 16, every
  letter counting from ten on, as \<open>escape_hex_val\<close> has it.
\<close>

definition escape_hex_number :: "string \<Rightarrow> nat" where
  "escape_hex_number hs = foldl (\<lambda>v c. 16 * v + nat (escape_hex_val c)) 0 hs"

text \<open>
  The condition of the \<^verbatim>\<open>do ... while\<close> of \<^verbatim>\<open>internal_read_name_ident\<close>, on the
  flags of the lexer and a character.
\<close>

definition name_char :: "32 word \<Rightarrow> char \<Rightarrow> bool" where
  "name_char lex_flags c
   = (valid_name_char c \<or> strings_only c lex_flags \<or> allowing_path_names c lex_flags)"

subsection \<open>Scanning forward\<close>

text \<open>
  How the lexer moves while it scans forward. \<open>same_frame s s'\<close>: the fields that only
  the public functions write are the same. \<open>advances s s'\<close>: moreover no error has been
  counted, and every warning counted is paid for by a character consumed.
  \<open>scanned ok s s'\<close>, for a scanning function that has returned \<open>ok\<close>: at most one
  error has been counted, and only when the function has failed; at most as many warnings
  as there were characters to read; and the read position has not moved back.
\<close>

definition same_frame :: "lexer \<Rightarrow> lexer \<Rightarrow> bool" where
  "same_frame s s'
   = (m_buffer_head_ptr s' = m_buffer_head_ptr s
      \<and> m_last_script_ptr s' = m_last_script_ptr s
      \<and> m_last_line_num s' = m_last_line_num s
      \<and> m_lexer_flags s' = m_lexer_flags s
      \<and> m_leftover_token s' = m_leftover_token s
      \<and> m_token_available s' = m_token_available s
      \<and> m_initialized s' = m_initialized s)"


definition scanned :: "bool \<Rightarrow> lexer \<Rightarrow> lexer \<Rightarrow> bool" where
  "scanned ok s s'
   = (same_frame s s'
      \<and> (m_error_count s' = m_error_count s
         \<or> \<not> ok \<and> m_error_count s' = m_error_count s + 1)
      \<and> (\<exists>k\<le>length (m_script_ptr s). m_warn_count s' = m_warn_count s + of_nat k)
      \<and> length (m_script_ptr s') \<le> length (m_script_ptr s))"

subsection \<open>Sequences of calls\<close>

text \<open>
  A client of the lexer is a sequence of calls of its public functions. The token of the
  pair is the client's token variable, which the calls with an \<^verbatim>\<open>out_token\<close> write.
\<close>

datatype operation =
  call_next_token
  | call_check_token_string string
  | call_check_token_type token_type "32 word"
  | call_peek_token_string string
  | call_peek_token_type token_type "32 word"
  | call_unget_token token
  | call_error string
  | call_warning string
  | call_free_script_source
  | call_reset
  | call_clear

fun apply_operation ::
  "punct_tables \<Rightarrow> operation \<Rightarrow> lexer \<times> token \<Rightarrow> (lexer \<times> token) option" where
  "apply_operation pt call_next_token x = map_option snd (next_token pt (fst x) (snd x))"
| "apply_operation pt (call_check_token_string string) x
     = map_option snd (check_token_string pt string (fst x) (snd x))"
| "apply_operation pt (call_check_token_type type subtype_flags) x
     = map_option snd (check_token_type pt type subtype_flags (fst x) (snd x))"
| "apply_operation pt (call_peek_token_string string) x
     = map_option (\<lambda>r. (snd r, snd x)) (peek_token_string pt string (fst x))"
| "apply_operation pt (call_peek_token_type type subtype_flags) x
     = map_option snd (peek_token_type pt type subtype_flags (fst x) (snd x))"
| "apply_operation pt (call_unget_token in_token) x = Some (unget_token in_token (fst x), snd x)"
| "apply_operation pt (call_error message) x = Some (snd (error message (fst x)), snd x)"
| "apply_operation pt (call_warning message) x = Some (warning message (fst x), snd x)"
| "apply_operation pt call_free_script_source x = Some (free_script_source (fst x), snd x)"
| "apply_operation pt call_reset x = Some (reset (fst x), snd x)"
| "apply_operation pt call_clear x = Some (clear (fst x), snd x)"

fun run_operations ::
  "punct_tables \<Rightarrow> operation list \<Rightarrow> lexer \<times> token \<Rightarrow> (lexer \<times> token) option" where
  "run_operations pt [] x = Some x"
| "run_operations pt (op # ops) x = Option.bind (apply_operation pt op x) (run_operations pt ops)"



section \<open>Lemmas\<close>

subsection \<open>Evaluation\<close>


lemmas char_eval = schar_def is_digit_def is_lower_def is_upper_def digit_val_def peek_def
  is_hex_digit_def is_bin_digit_def is_oct_digit_def is_name_start_def is_quote_def
  valid_name_char_def strings_only_def allowing_path_names_def is_escape_hex_digit_def

lemmas token_flag_eval = flags_integer_def flags_signed_integer_def flags_unsigned_integer_def
  flags_binary_def flags_octal_def flags_decimal_def flags_hexadecimal_def
  flags_floating_point_def flags_single_precision_def flags_double_precision_def
  flags_extended_precision_def flags_infinite_def flags_indefinite_def flags_nan_def
  flags_ip_address_def flags_ip_port_def flags_boolean_def has_flag_def

lemmas lexer_flag_eval = flags_no_errors_def flags_no_warnings_def flags_no_fatal_errors_def
  flags_no_string_concat_def flags_no_string_escape_chars_def flags_allow_path_names_def
  flags_allow_number_names_def flags_allow_ip_addresses_def flags_allow_float_exceptions_def
  flags_allow_multi_char_literals_def flags_allow_backslash_string_concat_def
  flags_only_strings_def lex_flag_def has_flag_def

lemmas token_eval = empty_token_def token_clear_def set_string_def set_flags_def set_type_def
  set_line_number_def set_lines_crossed_def append_char_def get_length_def
  token_eq_string_def c_str_def is_number_def is_boolean_def

lemmas scan_eval = lexer_from_memory_def init_from_memory_def new_lexer_def next_token_def
  save_position_def start_token_def dispatch_token_def internal_read_whitespace.simps
  skip_blanks.simps skip_comment_def line_comment.simps block_comment.simps
  cur_def cur1_def step_def line_inc_def prev_char_def error_def warning_def
  internal_read_number_def read_decimal_part_def read_float_part_def digits_and_dots.simps
  read_while.simps take_char_def number_tail_def int_suffix.simps
  internal_read_name_ident_def name_loop.simps name_continues_def
  internal_read_string_def string_loop.simps string_quote_step_def rewind_def
  internal_read_escape_character_def escape_hex.simps escape_dec.simps escape_result_def
  escape_hex_val_def wrap_int_def float_exception_flags_def internal_check_string_def
  unread_def Let_def


subsection \<open>The default tables\<close>

lemma default_tables_built: "set_punctuation_tables default_punctuations = Some default_tables"
  by code_simp

subsection \<open>Doubles of small integers\<close>

lemma bitlen_one: "bitlen 1 = 1"
  by (subst compute_bitlen) simp

lemma floor_log2_of_int:
  assumes "0 < n"
  shows "floor_log2 (of_int n) = bitlen n - 1"
proof -
  have "2 ^ nat (bitlen n - 1) \<le> n"
    using bitlen_bounds [OF assms] by simp
  then have "(2::rat) ^ nat (bitlen n - 1) \<le> of_int n"
    by (metis of_int_le_iff of_int_numeral of_int_power)
  moreover have "0 \<le> bitlen n - 1"
    using assms bitlen_eq_zero_iff [of n] bitlen_nonneg [of n] by linarith
  ultimately have "(2::rat) powi (bitlen n - 1) \<le> of_int n"
    by (simp add: power_int_def)
  then show ?thesis
    by (simp add: floor_log2_def bitlen_one)
qed

lemma round_half_even_of_int: "round_half_even (of_int m) = m"
  by (simp add: round_half_even_def)

lemma round_double_of_int:
  assumes "0 \<le> n" "n < 2 ^ 53"
  shows "round_double (of_int n) = Fin (of_int n)"
proof (cases "n = 0")
  case True
  then show ?thesis by (simp add: round_double_def)
next
  case False
  then have pos: "0 < n" using assms by simp
  define e where "e = bitlen n - 1"
  have e0: "0 \<le> e"
    unfolding e_def using pos bitlen_eq_zero_iff [of n] bitlen_nonneg [of n] by linarith
  have "bitlen n \<le> 53"
    using assms by (simp add: bitlen_le_iff_power)
  then have e52: "e \<le> 52" by (simp add: e_def)
  define k where "k = nat (52 - e)"
  have ek: "e - 52 = - int k" using e52 by (simp add: k_def)
  have q: "(2::rat) powi (e - 52) = 1 / 2 ^ k"
    unfolding ek by (simp add: power_int_minus field_simps)
  have fl: "floor_log2 (rat_of_int n) = e"
    using pos floor_log2_of_int [of n] by (simp add: e_def)
  have xq: "rat_of_int n / (1 / 2 ^ k) = of_int (n * 2 ^ k)"
    by simp
  have y: "rat_of_int (round_half_even (rat_of_int n / (1 / 2 ^ k))) * (1 / 2 ^ k) = of_int n"
    unfolding xq round_half_even_of_int by simp
  have ab: "\<bar>rat_of_int n\<bar> = rat_of_int n" using pos by simp
  have nz: "rat_of_int n \<noteq> 0" using pos by simp
  have mx: "max e (- 1022) = e" using e0 by simp
  have y': "rat_of_int (round_half_even (rat_of_int n /
              2 powi (max (floor_log2 \<bar>rat_of_int n\<bar>) (- 1022) - 52))) *
            2 powi (max (floor_log2 \<bar>rat_of_int n\<bar>) (- 1022) - 52) = rat_of_int n"
    unfolding ab fl mx q by (rule y)
  have small: "\<not> (2::rat) ^ 1024 \<le> \<bar>rat_of_int n\<bar>"
  proof -
    have "rat_of_int n < 2 ^ 53" using assms(2)
      by (metis of_int_less_iff of_int_numeral of_int_power)
    also have "\<dots> \<le> 2 ^ 1024" by (rule power_increasing) simp_all
    finally show ?thesis unfolding ab by simp
  qed
  show ?thesis
    unfolding round_double_def Let_def y' by (simp only: nz small if_False)
qed

lemma double_of_u64_small:
  assumes "uint u < 2 ^ 53"
  shows "double_of_u64 u = Fin (of_int (uint u))"
  unfolding double_of_u64_def using assms by (intro round_double_of_int) simp_all

lemma sint_small:
  assumes "uint (u :: 64 word) < 2 ^ 53"
  shows "sint u = uint u"
proof -
  have "uint u < 2 ^ 63" using assms by simp
  moreover have "- (2 ^ 63) \<le> uint u" by (rule order_trans [of _ 0]) simp_all
  ultimately show ?thesis
    by (simp add: sint_uint signed_take_bit_int_eq_self)
qed

lemma uint_word_of_int_small:
  assumes "0 \<le> t" "t < 2 ^ 64"
  shows "uint (word_of_int t :: 64 word) = t"
  using assms by (simp add: uint_word_of_int)

lemma trunc_range:
  assumes "- 1 < x" "x < 2 ^ 64"
  shows "0 \<le> trunc_toward_zero x \<and> trunc_toward_zero x < 2 ^ 64"
proof (cases "0 \<le> x")
  case True
  then have "\<lfloor>x\<rfloor> < 2 ^ 64" using assms(2) by (simp add: floor_less_iff)
  then show ?thesis using True by (simp add: trunc_toward_zero_def)
next
  case False
  then have "\<lceil>x\<rceil> = 0" using assms(1) by (simp add: ceiling_eq_iff)
  then show ?thesis using False by (simp add: trunc_toward_zero_def)
qed

lemma u64_of_double_small:
  assumes "u64_of_double d = Some u" "uint u < 2 ^ 53"
  shows "\<exists>q. d = Fin q \<and> sint u = trunc_toward_zero q"
proof (cases d)
  case (Fin x)
  with assms(1) have r: "- 1 < x" "x < 2 ^ 64" and u: "u = word_of_int (trunc_toward_zero x)"
    by (auto simp: u64_of_double_def split: if_splits)
  have "uint u = trunc_toward_zero x"
    unfolding u using trunc_range [OF r] by (intro uint_word_of_int_small) auto
  then show ?thesis using sint_small [OF assms(2)] Fin by simp
qed (use assms in \<open>auto simp: u64_of_double_def\<close>)

lemma trunc_of_int: "trunc_toward_zero (of_int n) = n"
  by (simp add: trunc_toward_zero_def)

lemma double_of_u64_trunc:
  assumes "uint u < 2 ^ 53"
  shows "\<exists>q. double_of_u64 u = Fin q \<and> sint u = trunc_toward_zero q"
proof (intro exI conjI)
  show "double_of_u64 u = Fin (rat_of_int (uint u))"
    by (rule double_of_u64_small [OF assms])
  show "sint u = trunc_toward_zero (rat_of_int (uint u))"
    by (simp only: trunc_of_int sint_small [OF assms])
qed

lemma computed_values_small:
  assumes "computed_values text fl = Some (u, d)" "uint u < 2 ^ 53"
  shows "\<exists>q. d = Fin q \<and> sint u = trunc_toward_zero q"
proof (cases "has_flag fl flags_floating_point")
  case True
  with assms(1) have "u64_of_double d = Some u"
    by (auto simp: computed_values_def Let_def)
  then show ?thesis using assms(2) by (rule u64_of_double_small)
next
  case False
  have "d = double_of_u64 u \<or> (u = 0 \<and> d = Fin 0)"
    using assms(1) False
    by (auto simp: computed_values_def Let_def split: if_splits option.splits)
  then show ?thesis
    using double_of_u64_trunc [OF assms(2)] by (auto simp: trunc_toward_zero_def)
qed

subsection \<open>A scanned token has no cached value\<close>

lemma append_char_valid: "\<not> m_values_valid tok \<Longrightarrow> \<not> m_values_valid (append_char c tok)"
  by (simp add: append_char_def)

lemma string_loop_valid:
  "\<not> m_values_valid tok \<Longrightarrow> \<not> m_values_valid (snd (snd (string_loop quote s tok)))"
proof (induction quote s tok rule: string_loop.induct)
  case (1 quote s tok)
  show ?case
    using 1 by (subst string_loop.simps) (auto simp: append_char_valid)
qed

lemma internal_read_string_valid:
  "\<not> m_values_valid (snd (snd (internal_read_string quote s tok)))"
  by (simp add: internal_read_string_def Let_def string_loop_valid set_type_def)

lemma internal_read_name_ident_valid:
  "\<not> m_values_valid (snd (snd (internal_read_name_ident s tok)))"
  by (simp add: internal_read_name_ident_def Let_def set_flags_def)

lemma number_tail_valid:
  "\<not> m_values_valid (snd (snd (number_tail fl x)))"
  by (simp add: number_tail_def Let_def set_flags_def)

lemma internal_read_number_valid:
  "fst (internal_read_number s tok)
   \<Longrightarrow> \<not> m_values_valid (snd (snd (internal_read_number s tok)))"
  by (auto simp: internal_read_number_def Let_def number_tail_valid split: if_splits)

lemma punct_loop_valid:
  "punct_loop pt n s tok = Some r \<Longrightarrow> fst r \<longrightarrow> \<not> m_values_valid (snd (snd r))"
  apply (rule punct_loop.raw_induct
     [where P = "\<lambda>pt n s tok r. fst r \<longrightarrow> \<not> m_values_valid (snd (snd r))"])
   apply (auto split: if_splits option.splits simp: Let_def set_flags_def)
  done

lemma internal_read_punctuation_valid:
  "internal_read_punctuation pt s tok = Some r \<Longrightarrow> fst r
   \<Longrightarrow> \<not> m_values_valid (snd (snd r))"
  using punct_loop_valid by (auto simp: internal_read_punctuation_def split: if_splits)


lemma dispatch_token_valid:
  assumes "dispatch_token pt s2 t = Some r" "fst r"
  shows "\<not> m_values_valid (snd (snd r))"
  using assms
    internal_read_string_valid [of "cur s2" s2 t]
    internal_read_name_ident_valid [of s2 t]
    internal_read_number_valid [of s2 t]
    internal_read_name_ident_valid
      [of "fst (snd (internal_read_number s2 t))" "snd (snd (internal_read_number s2 t))"]
    internal_read_punctuation_valid [of pt s2 t]
  unfolding dispatch_token_def Let_def
  by (auto split: if_splits option.splits)

lemma next_token_valid:
  assumes "next_token pt s tok0 = Some (True, s', tok)" "\<not> m_token_available s"
  shows "\<not> m_values_valid tok"
proof -
  have ini: "m_initialized s"
    using assms(1) by (auto simp: next_token_def error_def split: if_splits)
  show ?thesis
    using assms ini dispatch_token_valid [where r = "(True, s', tok)"]
    unfolding next_token_def Let_def
    by (auto split: if_splits)
qed

lemma default_tables_eq:
  "default_tables =
     \<lparr>m_punctuations = default_punctuations,
      m_punctuations_table =
        replicate 33 (- 1) @ [20, - 1, 51, 52, 13, 16, - 1, 44, 45, 11, 9, 38, 10, 42, 12]
        @ replicate 10 (- 1) @ [36, 39, 15, 19, 14, 41] @ replicate 27 (- 1)
        @ [46, 43, 47, 33] @ replicate 28 (- 1) @ [48, 17, 49, 30] @ replicate 129 (- 1),
      m_punctuations_next =
        [- 1, - 1, - 1, - 1, - 1, - 1, - 1, 23, 24, 25, 26, 4, 5, 6, 7, 8, 31, 32, - 1, 1, 18,
         - 1, - 1, 21, 22, 2, 35, - 1, - 1, - 1, - 1, 27, 28, 29, - 1, 3, 40, 34, - 1, - 1, - 1,
         - 1, 37, - 1, - 1, - 1, - 1, - 1, - 1, - 1, - 1, 50, - 1]\<rparr>"
  by code_simp

lemmas value_eval = as_uint64_def as_int64_def as_double_def get_value_u64_def
  get_value_double_def update_cached_values_def computed_values_def

lemma bitlen_eqI:
  assumes "2 ^ nat (w - 1) \<le> x" "x < 2 ^ nat w" "0 < w"
  shows "bitlen x = w"
proof -
  have "bitlen x \<le> w" using assms by (simp add: bitlen_le_iff_power)
  moreover have "w \<le> bitlen x"
    using assms by (simp add: bitlen_ge_iff_power nat_diff_distrib)
  ultimately show ?thesis by simp
qed

lemmas punct_eval = internal_read_punctuation_def punct_loop.simps table_index_def
  default_tables_eq default_punctuations_def pdef_def nth_append

lemmas trim_eval = trim_def trim_string_def ltrim_string_def rtrim_string_def is_blank_def


subsection \<open>Runs of characters\<close>

lemma append_char_not_NUL:
  "c \<noteq> NUL \<Longrightarrow> append_char c tok = tok\<lparr>m_string := m_string tok @ [c], m_values_valid := False\<rparr>"
  by (simp add: append_char_def)

lemma fold_append_char:
  "NUL \<notin> set t \<Longrightarrow> t \<noteq> []
   \<Longrightarrow> fold append_char t tok = tok\<lparr>m_string := m_string tok @ t, m_values_valid := False\<rparr>"
proof (induction t arbitrary: tok)
  case Nil
  then show ?case by simp
next
  case (Cons c t)
  have c: "append_char c tok = tok\<lparr>m_string := m_string tok @ [c], m_values_valid := False\<rparr>"
    using Cons.prems by (intro append_char_not_NUL) auto
  show ?case
  proof (cases "t = []")
    case True
    then show ?thesis by (simp add: c)
  next
    case False
    then have "fold append_char t (append_char c tok)
        = (append_char c tok)\<lparr>m_string := m_string (append_char c tok) @ t,
             m_values_valid := False\<rparr>"
      using Cons.prems by (intro Cons.IH) auto
    then show ?thesis by (simp add: c)
  qed
qed

lemma ptr_same: "m_script_ptr s = r \<Longrightarrow> s\<lparr>m_script_ptr := r\<rparr> = s"
  by auto

lemma cur_Cons: "m_script_ptr s = c # r \<Longrightarrow> cur s = c"
  by (simp add: cur_def peek_def)

lemma cur_peek: "m_script_ptr s = r \<Longrightarrow> cur s = peek r"
  by (simp add: cur_def)





lemma no_whitespace:
  "\<not> schar (cur s) \<le> schar CHR '' '' \<Longrightarrow> cur s \<noteq> CHR ''/''
   \<Longrightarrow> internal_read_whitespace s = (True, s)"
proof -
  assume a: "\<not> schar (cur s) \<le> schar CHR '' ''" "cur s \<noteq> CHR ''/''"
  have "skip_blanks s = (True, s)"
    using a(1) by (subst skip_blanks.simps) simp
  then show ?thesis
    using a(2) by (subst internal_read_whitespace.simps) (simp add: skip_comment_def)
qed

lemma lex_flag_ptr [simp]: "lex_flag (s\<lparr>m_script_ptr := r\<rparr>) f = lex_flag s f"
  by (simp add: lex_flag_def)





subsection \<open>IP addresses\<close>




lemma digit_val_nonneg: "is_digit c \<Longrightarrow> 0 \<le> digit_val c"
  by (simp add: is_digit_def digit_val_def)






lemma start_token_string [simp]: "m_string (start_token s tok0) = []"
  by (simp add: start_token_def token_eval)


lemma fold_append_char_append:
  "fold append_char (t @ q) tok = fold append_char q (fold append_char t tok)"
  by simp






subsection \<open>Escape sequences\<close>

lemma wrap_int_small: "0 \<le> i \<Longrightarrow> i < 2 ^ 31 \<Longrightarrow> wrap_int i = i"
  unfolding wrap_int_def
  by (simp add: sint_uint signed_take_bit_int_eq_self uint_word_of_int take_bit_int_eq_self)

lemma int_less_pow: "(k::nat) < 2 ^ 31 \<Longrightarrow> int k < 2 ^ 31"
  by simp

lemma foldl_dec_mono: "n \<le> foldl (\<lambda>v c. 10 * v + nat (digit_val c)) n ds"
proof (induction ds arbitrary: n)
  case Nil
  then show ?case by simp
next
  case (Cons c ds)
  have "n \<le> 10 * n + nat (digit_val c)" by simp
  also have "\<dots> \<le> foldl (\<lambda>v c. 10 * v + nat (digit_val c)) (10 * n + nat (digit_val c)) ds"
    by (rule Cons.IH)
  finally show ?case by simp
qed

lemma foldl_hex_mono: "n \<le> foldl (\<lambda>v c. 16 * v + nat (escape_hex_val c)) n hs"
proof (induction hs arbitrary: n)
  case Nil
  then show ?case by simp
next
  case (Cons c hs)
  have "n \<le> 16 * n + nat (escape_hex_val c)" by simp
  also have "\<dots> \<le> foldl (\<lambda>v c. 16 * v + nat (escape_hex_val c))
                      (16 * n + nat (escape_hex_val c)) hs"
    by (rule Cons.IH)
  finally show ?case by simp
qed

lemma escape_dec_run:
  assumes "\<forall>x\<in>set ds. is_digit x" "\<not> is_digit (peek rest)" "m_script_ptr s = ds @ rest"
    and "foldl (\<lambda>v c. 10 * v + nat (digit_val c)) n ds < 2 ^ 31"
  shows "escape_dec (int n) s
         = (int (foldl (\<lambda>v c. 10 * v + nat (digit_val c)) n ds), s\<lparr>m_script_ptr := rest\<rparr>)"
  using assms
proof (induction ds arbitrary: n s)
  case Nil
  then show ?case
    by (subst escape_dec.simps) (simp add: cur_def ptr_same)
next
  case (Cons c ds)
  let ?n = "10 * n + nat (digit_val c)"
  have c: "cur s = c" "is_digit c" using Cons.prems(1,3) by (simp_all add: cur_Cons)
  have "?n \<le> foldl (\<lambda>v c. 10 * v + nat (digit_val c)) ?n ds"
    by (rule foldl_dec_mono)
  then have b: "?n < 2 ^ 31" using Cons.prems(4) by simp
  have eq: "int n * 10 + digit_val c = int ?n"
    using digit_val_nonneg [OF c(2)] by simp
  have "int ?n < 2 ^ 31" using b by (rule int_less_pow)
  then have "wrap_int (int ?n) = int ?n"
    by (intro wrap_int_small) simp_all
  then have w: "wrap_int (int n * 10 + digit_val c) = int ?n"
    by (simp only: eq)
  have st: "step s = s\<lparr>m_script_ptr := ds @ rest\<rparr>"
    using Cons.prems(3) by (simp add: step_def)
  have "escape_dec (int ?n) (s\<lparr>m_script_ptr := ds @ rest\<rparr>)
          = (int (foldl (\<lambda>v c. 10 * v + nat (digit_val c)) ?n ds), s\<lparr>m_script_ptr := rest\<rparr>)"
    using Cons.IH [of "s\<lparr>m_script_ptr := ds @ rest\<rparr>" ?n] Cons.prems by simp
  then show ?case
    using c by (subst escape_dec.simps) (simp add: w st)
qed

lemma escape_hex_val_nonneg: "is_escape_hex_digit c \<Longrightarrow> 0 \<le> escape_hex_val c"
  by (auto simp: is_escape_hex_digit_def escape_hex_val_def is_digit_def is_upper_def
      is_lower_def)

lemma escape_hex_run:
  assumes "\<forall>x\<in>set hs. is_escape_hex_digit x" "\<not> is_escape_hex_digit (peek rest)"
    and "m_script_ptr s = hs @ rest"
    and "foldl (\<lambda>v c. 16 * v + nat (escape_hex_val c)) n hs < 2 ^ 31"
  shows "escape_hex (int n) s
         = (int (foldl (\<lambda>v c. 16 * v + nat (escape_hex_val c)) n hs),
            s\<lparr>m_script_ptr := rest\<rparr>)"
  using assms
proof (induction hs arbitrary: n s)
  case Nil
  then show ?case
    by (subst escape_hex.simps) (simp add: cur_def ptr_same)
next
  case (Cons c hs)
  let ?n = "16 * n + nat (escape_hex_val c)"
  have c: "cur s = c" "is_escape_hex_digit c" using Cons.prems(1,3) by (simp_all add: cur_Cons)
  have "?n \<le> foldl (\<lambda>v c. 16 * v + nat (escape_hex_val c)) ?n hs"
    by (rule foldl_hex_mono)
  then have b: "?n < 2 ^ 31" using Cons.prems(4) by simp
  have "push_bit 4 (int n) + escape_hex_val c = int ?n"
    using escape_hex_val_nonneg [OF c(2)] by (simp add: push_bit_eq_mult)
  moreover have "int ?n < 2 ^ 31" using b by (rule int_less_pow)
  ultimately have w: "wrap_int (push_bit 4 (int n) + escape_hex_val c) = int ?n"
    using wrap_int_small [of "int ?n"] by simp
  have st: "step s = s\<lparr>m_script_ptr := hs @ rest\<rparr>"
    using Cons.prems(3) by (simp add: step_def)
  have "escape_hex (int ?n) (s\<lparr>m_script_ptr := hs @ rest\<rparr>)
          = (int (foldl (\<lambda>v c. 16 * v + nat (escape_hex_val c)) ?n hs),
             s\<lparr>m_script_ptr := rest\<rparr>)"
    using Cons.IH [of "s\<lparr>m_script_ptr := hs @ rest\<rparr>" ?n] Cons.prems by simp
  then show ?case
    using c by (subst escape_hex.simps) (simp add: w st)
qed

lemma is_digit_not_escape_letter:
  "is_digit c \<Longrightarrow> c \<notin> set [CHR ''n'', CHR ''r'', CHR ''t'', CHR ''v'', CHR ''b'', CHR ''f'',
      CHR ''a'', CHR 0x5C, CHR 0x27, CHR 0x22, CHR ''?'', CHR ''x'']"
  by (auto simp: is_digit_def schar_def)

lemma char_of_255: "char_of (255 :: int) = char_of (255 :: nat)"
  by (metis char_of_nat of_nat_numeral)

lemma escape_result_value:
  "escape_result (int n) msg s
   = (True, (if 255 < n then s\<lparr>m_warn_count := m_warn_count s + 1\<rparr> else s),
      char_of (min 255 n))"
  by (simp add: escape_result_def warning_def min_def char_of_255)

lemma escape_decimal:
  assumes "m_script_ptr s = CHR 0x5C # ds @ rest"
    and "ds \<noteq> []" "\<forall>x\<in>set ds. is_digit x" "hd ds \<noteq> CHR ''0''"
    and "\<not> is_digit (peek rest)" "decimal_number ds < 2 ^ 31"
  shows "internal_read_escape_character s
         = (True,
            (if 255 < decimal_number ds
             then s\<lparr>m_script_ptr := rest, m_warn_count := m_warn_count s + 1\<rparr>
             else s\<lparr>m_script_ptr := rest\<rparr>),
            char_of (min 255 (decimal_number ds)))"
proof -
  obtain c ds' where ds: "ds = c # ds'" using assms(2) by (cases ds) auto
  have st: "step s = s\<lparr>m_script_ptr := ds @ rest\<rparr>"
    using assms(1) by (simp add: step_def)
  have c: "cur (step s) = c" "is_digit c" "c \<noteq> CHR ''0''"
    using assms(3,4) ds by (simp_all add: st cur_def peek_def)
  have run: "escape_dec 0 (step s) = (int (decimal_number ds), s\<lparr>m_script_ptr := rest\<rparr>)"
    using escape_dec_run [OF assms(3,5), of "step s" 0] assms(6)
    by (simp add: st decimal_number_def)
  show ?thesis
    using is_digit_not_escape_letter [OF c(2)] c
    by (simp add: internal_read_escape_character_def Let_def run escape_result_value)
qed

lemma escape_hexadecimal:
  assumes "m_script_ptr s = CHR 0x5C # CHR ''x'' # hs @ rest"
    and "\<forall>x\<in>set hs. is_escape_hex_digit x" "\<not> is_escape_hex_digit (peek rest)"
    and "escape_hex_number hs < 2 ^ 31"
  shows "internal_read_escape_character s
         = (True,
            (if 255 < escape_hex_number hs
             then s\<lparr>m_script_ptr := rest, m_warn_count := m_warn_count s + 1\<rparr>
             else s\<lparr>m_script_ptr := rest\<rparr>),
            char_of (min 255 (escape_hex_number hs)))"
proof -
  have st: "step (step s) = s\<lparr>m_script_ptr := hs @ rest\<rparr>"
    using assms(1) by (simp add: step_def)
  have c: "cur (step s) = CHR ''x''"
    using assms(1) by (simp add: step_def cur_def peek_def)
  have "escape_hex 0 (s\<lparr>m_script_ptr := hs @ rest\<rparr>)
        = (int (escape_hex_number hs), s\<lparr>m_script_ptr := rest\<rparr>)"
    using escape_hex_run [OF assms(2,3), of "s\<lparr>m_script_ptr := hs @ rest\<rparr>" 0] assms(4)
    by (simp add: escape_hex_number_def)
  then have run: "escape_hex 0 (step (step s))
        = (int (escape_hex_number hs), s\<lparr>m_script_ptr := rest\<rparr>)"
    unfolding st .
  show ?thesis
    by (simp add: internal_read_escape_character_def Let_def c run escape_result_value)
qed

lemma string_loop_escape:
  assumes "cur s = CHR 0x5C" "\<not> lex_flag s flags_no_string_escape_chars"
    and "internal_read_escape_character s = (True, s', c)"
  shows "string_loop quote s tok = string_loop quote s' (append_char c tok)"
  using assms by (subst string_loop.simps) simp

subsection \<open>Names\<close>

lemma name_continues_char: "name_continues s = name_char (m_lexer_flags s) (cur s)"
  by (simp add: name_continues_def name_char_def)

lemma name_char_not_NUL: "name_char f c \<Longrightarrow> c \<noteq> NUL"
  by (auto simp: name_char_def valid_name_char_def strings_only_def allowing_path_names_def
      dest: is_digit_not_NUL is_upper_not_NUL is_lower_not_NUL)

lemma name_loop_run:
  assumes "\<forall>x\<in>set run. name_char (m_lexer_flags s) x"
    and "\<not> name_char (m_lexer_flags s) (peek rest)"
    and "m_script_ptr s = c # run @ rest"
  shows "name_loop s tok = (s\<lparr>m_script_ptr := rest\<rparr>, fold append_char (c # run) tok)"
  using assms
proof (induction run arbitrary: c s tok)
  case Nil
  have st: "step s = s\<lparr>m_script_ptr := rest\<rparr>" "cur s = c"
    using Nil.prems(3) by (simp_all add: step_def cur_def peek_def)
  have "\<not> name_continues (step s)"
    using Nil.prems(2) by (simp add: name_continues_char st cur_def)
  then show ?case
    by (subst name_loop.simps) (simp add: st)
next
  case (Cons d run)
  have st: "step s = s\<lparr>m_script_ptr := d # run @ rest\<rparr>" "cur s = c"
    using Cons.prems(3) by (simp_all add: step_def cur_def peek_def)
  have nc: "name_continues (step s)"
    using Cons.prems(1) by (simp add: name_continues_char st cur_def peek_def)
  have "name_loop (s\<lparr>m_script_ptr := d # run @ rest\<rparr>) (append_char c tok)
          = (s\<lparr>m_script_ptr := rest\<rparr>, fold append_char (d # run) (append_char c tok))"
    using Cons.IH [of "s\<lparr>m_script_ptr := d # run @ rest\<rparr>" d "append_char c tok"] Cons.prems
    by simp
  then show ?case
    using nc by (subst name_loop.simps) (simp add: st)
qed

lemma string_loop_type:
  "m_type (snd (snd (string_loop quote s tok))) = m_type tok"
proof (induction quote s tok rule: string_loop.induct)
  case (1 quote s tok)
  show ?case
    using 1 by (subst string_loop.simps) (auto simp: append_char_def)
qed

lemma internal_read_string_type:
  "m_type (snd (snd (internal_read_string quote s tok)))
   = (if quote = CHR 0x22 then type_string else type_literal)"
  by (simp add: internal_read_string_def Let_def string_loop_type set_type_def)

lemma next_token_only_strings:
  assumes "m_initialized s" "\<not> m_token_available s" "lex_flag s flags_only_strings"
    and "\<not> schar (cur s) \<le> schar CHR '' ''" "cur s \<noteq> CHR ''/''"
  shows "next_token pt s tok0
         = (let s2 = (save_position s)\<lparr>m_whitespace_end_ptr := Some (m_script_ptr s)\<rparr>
            in if is_quote (cur s)
               then Some (internal_read_string (cur s) s2 (start_token s2 tok0))
               else Some (internal_read_name_ident s2 (start_token s2 tok0)))"
proof -
  have c: "cur (save_position s) = cur s" "m_script_ptr (save_position s) = m_script_ptr s"
    by (simp_all add: save_position_def cur_def)
  have ws: "internal_read_whitespace (save_position s) = (True, save_position s)"
    using assms(4,5) by (intro no_whitespace) (simp_all add: c)
  define s2 where "s2 = (save_position s)\<lparr>m_whitespace_end_ptr := Some (m_script_ptr s)\<rparr>"
  have s2: "cur s2 = cur s" "lex_flag s2 f = lex_flag s f" for f
    by (simp_all add: s2_def save_position_def cur_def lex_flag_def)
  have nt: "next_token pt s tok0 = dispatch_token pt s2 (start_token s2 tok0)"
    using assms(1,2) by (simp add: next_token_def ws c s2_def Let_def)
  show ?thesis
    unfolding nt using assms(3)
    by (simp add: dispatch_token_def s2 Let_def s2_def [symmetric])
qed

subsection \<open>The counters while scanning\<close>


lemma same_frame_trans: "same_frame s s' \<Longrightarrow> same_frame s' s'' \<Longrightarrow> same_frame s s''"
  by (simp add: same_frame_def)









lemma scanned_weaken: "scanned True s s' \<Longrightarrow> scanned ok s s'"
  by (auto simp: scanned_def)



subsection \<open>Whitespace\<close>






subsection \<open>Strings\<close>











subsection \<open>Names, numbers and punctuation\<close>














subsection \<open>Reading a token\<close>



subsection \<open>The counters after a call\<close>











section \<open>Properties\<close>

subsection \<open>Scanning strings only\<close>

lemma scan_only_strings_punctuation:
  "next_token pt (lexer_from_memory ''a+b'' flags_only_strings 1) empty_token
   = Some (True,
       (lexer_from_memory ''a+b'' flags_only_strings 1)\<lparr>m_script_ptr := ''+b'',
          m_whitespace_start_ptr := Some ''a+b'', m_whitespace_end_ptr := Some ''a+b''\<rparr>,
       \<lparr>m_string = ''a'', m_flags = 0, m_line_num = 1, m_lines_crossed = 0,
        m_type = type_identifier, m_values_valid = False, m_u64_value = 0,
        m_double_value = Fin 0\<rparr>)"
  by (simp add: scan_eval token_eval char_eval lexer_flag_eval token_flag_eval)

text \<open>
  What \<^verbatim>\<open>next_token\<close> reads with \<^verbatim>\<open>only_strings\<close> set, the lexer being at the first
  character of a token that is not a \<^verbatim>\<open>/\<close>: a token that begins with a quote is read by
  \<^verbatim>\<open>internal_read_string\<close>, any other by \<^verbatim>\<open>internal_read_name_ident\<close>, which stops
  at the first character that is not a letter, a digit, an underscore or a \<^verbatim>\<open>-\<close> (or a
  path character under \<^verbatim>\<open>allow_path_names\<close>).
\<close>

lemma only_strings_tokens:
  assumes "m_initialized s" "\<not> m_token_available s" "lex_flag s flags_only_strings"
    and "\<not> schar (cur s) \<le> schar CHR '' ''" "cur s \<noteq> CHR ''/''"
  shows
    "(\<not> is_quote (cur s) \<and> m_script_ptr s = c # run @ rest
        \<and> (\<forall>x\<in>set run. name_char (m_lexer_flags s) x)
        \<and> \<not> name_char (m_lexer_flags s) (peek rest)
      \<longrightarrow> next_token pt s tok0
          = Some (True,
              (save_position s)\<lparr>m_whitespace_end_ptr := Some (m_script_ptr s),
                                 m_script_ptr := rest\<rparr>,
              \<lparr>m_string = c # run,
               m_flags = (if c # run = ''true'' \<or> c # run = ''false'' then flags_boolean else 0),
               m_line_num = m_lexer_line_num s, m_lines_crossed = 0,
               m_type = type_identifier, m_values_valid = False, m_u64_value = 0,
               m_double_value = Fin 0\<rparr>))
     \<and> (is_quote (cur s)
      \<longrightarrow> (\<exists>r. next_token pt s tok0 = Some r
             \<and> r = internal_read_string (cur s)
                   ((save_position s)\<lparr>m_whitespace_end_ptr := Some (m_script_ptr s)\<rparr>)
                   (start_token
                      ((save_position s)\<lparr>m_whitespace_end_ptr := Some (m_script_ptr s)\<rparr>)
                      tok0)
             \<and> m_type (snd (snd r))
                 = (if cur s = CHR 0x22 then type_string else type_literal)))"
proof (intro conjI impI)
  assume h: "\<not> is_quote (cur s) \<and> m_script_ptr s = c # run @ rest
        \<and> (\<forall>x\<in>set run. name_char (m_lexer_flags s) x)
        \<and> \<not> name_char (m_lexer_flags s) (peek rest)"
  define s2 where "s2 = (save_position s)\<lparr>m_whitespace_end_ptr := Some (m_script_ptr s)\<rparr>"
  define tok1 where "tok1 = set_type type_identifier (start_token s2 tok0)"
  have c: "cur s = c" using h by (simp add: cur_def peek_def)
  have cn: "c \<noteq> NUL" using assms(4) c by (auto simp: schar_def)
  have rn: "NUL \<notin> set run" using h name_char_not_NUL by blast
  have p2: "m_script_ptr s2 = c # run @ rest" "m_lexer_flags s2 = m_lexer_flags s"
    using h by (simp_all add: s2_def save_position_def)
  have nl: "name_loop s2 tok1 = (s2\<lparr>m_script_ptr := rest\<rparr>, fold append_char (c # run) tok1)"
    using h by (intro name_loop_run) (simp_all add: p2)
  have fa: "fold append_char (c # run) tok1
          = tok1\<lparr>m_string := m_string tok1 @ c # run, m_values_valid := False\<rparr>"
    using cn rn by (intro fold_append_char) auto
  have t1: "tok1 = \<lparr>m_string = [], m_flags = 0, m_line_num = m_lexer_line_num s,
              m_lines_crossed = 0, m_type = type_identifier, m_values_valid = False,
              m_u64_value = 0, m_double_value = Fin 0\<rparr>"
    by (simp add: tok1_def start_token_def token_eval s2_def save_position_def)
  have nl2: "name_loop s2 tok1
        = (s2\<lparr>m_script_ptr := rest\<rparr>,
           \<lparr>m_string = c # run, m_flags = 0, m_line_num = m_lexer_line_num s,
            m_lines_crossed = 0, m_type = type_identifier, m_values_valid = False,
            m_u64_value = 0, m_double_value = Fin 0\<rparr>)"
    unfolding nl fa by (simp add: t1)
  have nq: "\<not> is_quote (cur s)" using h by blast
  have nt: "next_token pt s tok0 = Some (internal_read_name_ident s2 (start_token s2 tok0))"
    using next_token_only_strings [OF assms, of pt tok0] nq
    by (simp add: Let_def s2_def [symmetric])
  have r: "internal_read_name_ident s2 (start_token s2 tok0)
        = (True, s2\<lparr>m_script_ptr := rest\<rparr>,
           \<lparr>m_string = c # run,
            m_flags = (if c # run = ''true'' \<or> c # run = ''false'' then flags_boolean else 0),
            m_line_num = m_lexer_line_num s, m_lines_crossed = 0,
            m_type = type_identifier, m_values_valid = False, m_u64_value = 0,
            m_double_value = Fin 0\<rparr>)"
    by (simp add: internal_read_name_ident_def Let_def tok1_def [symmetric] nl2
        token_eq_string_def c_str_def set_flags_def)
  show "next_token pt s tok0
          = Some (True,
              (save_position s)\<lparr>m_whitespace_end_ptr := Some (m_script_ptr s),
                                 m_script_ptr := rest\<rparr>,
              \<lparr>m_string = c # run,
               m_flags = (if c # run = ''true'' \<or> c # run = ''false'' then flags_boolean else 0),
               m_line_num = m_lexer_line_num s, m_lines_crossed = 0,
               m_type = type_identifier, m_values_valid = False, m_u64_value = 0,
               m_double_value = Fin 0\<rparr>)"
    unfolding nt r by (simp add: s2_def)
next
  assume q: "is_quote (cur s)"
  show "\<exists>r. next_token pt s tok0 = Some r
             \<and> r = internal_read_string (cur s)
                   ((save_position s)\<lparr>m_whitespace_end_ptr := Some (m_script_ptr s)\<rparr>)
                   (start_token
                      ((save_position s)\<lparr>m_whitespace_end_ptr := Some (m_script_ptr s)\<rparr>)
                      tok0)
             \<and> m_type (snd (snd r))
                 = (if cur s = CHR 0x22 then type_string else type_literal)"
    using next_token_only_strings [OF assms, of pt tok0] q
    by (simp add: Let_def internal_read_string_type)
qed

lemma scan_only_strings_quoted:
  "next_token pt (lexer_from_memory [CHR 0x22, CHR ''4'', CHR ''2'', CHR 0x22] flags_only_strings 1)
     empty_token
   = Some (True,
       (lexer_from_memory [CHR 0x22, CHR ''4'', CHR ''2'', CHR 0x22] flags_only_strings 1)
         \<lparr>m_script_ptr := [],
          m_whitespace_start_ptr := Some [CHR 0x22, CHR ''4'', CHR ''2'', CHR 0x22],
          m_whitespace_end_ptr := Some [CHR 0x22, CHR ''4'', CHR ''2'', CHR 0x22]\<rparr>,
       \<lparr>m_string = ''42'', m_flags = 0, m_line_num = 1, m_lines_crossed = 0,
        m_type = type_string, m_values_valid = False, m_u64_value = 0,
        m_double_value = Fin 0\<rparr>)"
  by (simp add: scan_eval token_eval char_eval lexer_flag_eval token_flag_eval)

text \<open>
  Claim C2. With \<^verbatim>\<open>only_strings\<close> set, the buffer \<^verbatim>\<open>a+b\<close>, one run of characters with no
  whitespace in it, is not returned as a single token of string type: \<^verbatim>\<open>next_token\<close>
  returns the token \<^verbatim>\<open>a\<close>, of type identifier, and leaves \<^verbatim>\<open>+b\<close> to be read. And the
  quotes of a quoted run are not kept: on the buffer that holds \<^verbatim>\<open>42\<close> in double quotes,
  \<^verbatim>\<open>next_token\<close> returns a token of type string whose text is \<^verbatim>\<open>42\<close>.
\<close>

theorem only_strings_splits_runs:
  "lex_flag (lexer_from_memory ''a+b'' flags_only_strings 1) flags_only_strings
   \<and> next_token default_tables (lexer_from_memory ''a+b'' flags_only_strings 1) empty_token
     = Some (True,
         (lexer_from_memory ''a+b'' flags_only_strings 1)\<lparr>m_script_ptr := ''+b'',
            m_whitespace_start_ptr := Some ''a+b'', m_whitespace_end_ptr := Some ''a+b''\<rparr>,
         \<lparr>m_string = ''a'', m_flags = 0, m_line_num = 1, m_lines_crossed = 0,
          m_type = type_identifier, m_values_valid = False, m_u64_value = 0,
          m_double_value = Fin 0\<rparr>)
   \<and> ''a'' \<noteq> ''a+b'' \<and> type_identifier \<noteq> type_string
   \<and> lex_flag (lexer_from_memory [CHR 0x22, CHR ''4'', CHR ''2'', CHR 0x22] flags_only_strings 1)
         flags_only_strings
   \<and> next_token default_tables
         (lexer_from_memory [CHR 0x22, CHR ''4'', CHR ''2'', CHR 0x22] flags_only_strings 1)
         empty_token
     = Some (True,
         (lexer_from_memory [CHR 0x22, CHR ''4'', CHR ''2'', CHR 0x22] flags_only_strings 1)
           \<lparr>m_script_ptr := [],
            m_whitespace_start_ptr := Some [CHR 0x22, CHR ''4'', CHR ''2'', CHR 0x22],
            m_whitespace_end_ptr := Some [CHR 0x22, CHR ''4'', CHR ''2'', CHR 0x22]\<rparr>,
         \<lparr>m_string = ''42'', m_flags = 0, m_line_num = 1, m_lines_crossed = 0,
          m_type = type_string, m_values_valid = False, m_u64_value = 0,
          m_double_value = Fin 0\<rparr>)
   \<and> ''42'' \<noteq> [CHR 0x22, CHR ''4'', CHR ''2'', CHR 0x22]"
proof -
  have f: "lex_flag (lexer_from_memory ''a+b'' flags_only_strings 1) flags_only_strings"
    "lex_flag (lexer_from_memory [CHR 0x22, CHR ''4'', CHR ''2'', CHR 0x22] flags_only_strings 1)
       flags_only_strings"
    by (simp_all add: scan_eval lexer_flag_eval)
  show ?thesis
    using f scan_only_strings_punctuation [of default_tables]
      scan_only_strings_quoted [of default_tables]
    by simp
qed

subsection \<open>The integer and the floating-point value of a number token\<close>

lemma round_double_inexact: "round_double 9007199254740993 = Fin 9007199254740992"
proof -
  have b: "bitlen 9007199254740993 = 54"
    by (rule bitlen_eqI) simp_all
  have fl: "floor_log2 9007199254740993 = 53"
    using floor_log2_of_int [of 9007199254740993] b by simp
  have f: "\<lfloor>(9007199254740993 :: rat) / 2\<rfloor> = 4503599627370496"
    by (rule floor_unique) simp_all
  have r: "round_half_even (9007199254740993 / 2) = 4503599627370496"
    by (simp add: round_half_even_def Let_def f)
  show ?thesis
    by (simp add: round_double_def Let_def fl r)
qed

lemma scan_42:
  "next_token pt (lexer_from_memory ''42'' 0 1) empty_token
   = Some (True,
       (lexer_from_memory ''42'' 0 1)\<lparr>m_script_ptr := [], m_whitespace_start_ptr := Some ''42'',
          m_whitespace_end_ptr := Some ''42''\<rparr>,
       \<lparr>m_string = ''42'', m_flags = flags_decimal OR flags_integer OR flags_signed_integer,
        m_line_num = 1, m_lines_crossed = 0, m_type = type_number, m_values_valid = False,
        m_u64_value = 0, m_double_value = Fin 0\<rparr>)"
  by (simp add: scan_eval token_eval char_eval lexer_flag_eval token_flag_eval)

lemma scan_9007199254740993:
  "next_token pt (lexer_from_memory ''9007199254740993'' 0 1) empty_token
   = Some (True,
       (lexer_from_memory ''9007199254740993'' 0 1)\<lparr>m_script_ptr := [],
          m_whitespace_start_ptr := Some ''9007199254740993'',
          m_whitespace_end_ptr := Some ''9007199254740993''\<rparr>,
       \<lparr>m_string = ''9007199254740993'',
        m_flags = flags_decimal OR flags_integer OR flags_signed_integer,
        m_line_num = 1, m_lines_crossed = 0, m_type = type_number, m_values_valid = False,
        m_u64_value = 0, m_double_value = Fin 0\<rparr>)"
  by (simp add: scan_eval token_eval char_eval lexer_flag_eval token_flag_eval)

text \<open>
  Claim C3. A number token that \<^verbatim>\<open>next_token\<close> has scanned and whose 64-bit value
  \<^verbatim>\<open>as_uint64\<close> is defined and below \<open>2 ^ 53\<close> has a finite \<^verbatim>\<open>as_double\<close>, and its
  \<^verbatim>\<open>as_int64\<close> is that double truncated toward zero. This covers the binary, octal,
  decimal and hexadecimal integers and the floating-point tokens. Beyond \<open>2 ^ 53\<close> the
  two accessors part: the integer is kept exactly while the double is rounded.
\<close>

theorem as_int64_truncates_as_double:
  assumes "next_token pt s tok0 = Some (True, s', tok)"
    and "\<not> m_token_available s"
    and "as_uint64 tok = Some (u, t1)"
    and "uint u < 2 ^ 53"
  shows "\<exists>d t2 t3. as_double tok = Some (Fin d, t2)
                  \<and> as_int64 tok = Some (trunc_toward_zero d, t3)"
proof -
  have nv: "\<not> m_values_valid tok"
    using assms(1,2) by (rule next_token_valid)
  show ?thesis
  proof (cases "\<not> is_number tok \<and> \<not> is_boolean tok")
    case True
    then show ?thesis
      by (simp add: as_double_def get_value_double_def as_int64_def get_value_u64_def
          trunc_toward_zero_def)
  next
    case False
    with assms(3) nv obtain u' d' where cv: "computed_values (m_string tok) (m_flags tok) = Some (u', d')"
      and u: "u' = u"
      by (auto simp: as_uint64_def get_value_u64_def update_cached_values_def split: if_splits)
    obtain q where q: "d' = Fin q" "sint u = trunc_toward_zero q"
      using computed_values_small [OF cv] assms(4) u by auto
    show ?thesis
      using False nv cv u q
      by (auto simp: as_double_def get_value_double_def as_int64_def get_value_u64_def
          update_cached_values_def)
  qed
qed

theorem as_int64_truncates_as_double_witness:
  "next_token default_tables (lexer_from_memory ''42'' 0 1) empty_token
     = Some (True,
         (lexer_from_memory ''42'' 0 1)\<lparr>m_script_ptr := [],
            m_whitespace_start_ptr := Some ''42'', m_whitespace_end_ptr := Some ''42''\<rparr>,
         \<lparr>m_string = ''42'', m_flags = flags_decimal OR flags_integer OR flags_signed_integer,
          m_line_num = 1, m_lines_crossed = 0, m_type = type_number, m_values_valid = False,
          m_u64_value = 0, m_double_value = Fin 0\<rparr>)
   \<and> \<not> m_token_available (lexer_from_memory ''42'' 0 1)
   \<and> map_option fst
         (as_uint64
            \<lparr>m_string = ''42'', m_flags = flags_decimal OR flags_integer OR flags_signed_integer,
             m_line_num = 1, m_lines_crossed = 0, m_type = type_number, m_values_valid = False,
             m_u64_value = 0, m_double_value = Fin 0\<rparr>) = Some 42
   \<and> uint (42 :: 64 word) < 2 ^ 53
   \<and> (\<exists>d t2 t3.
         as_double
           \<lparr>m_string = ''42'', m_flags = flags_decimal OR flags_integer OR flags_signed_integer,
            m_line_num = 1, m_lines_crossed = 0, m_type = type_number, m_values_valid = False,
            m_u64_value = 0, m_double_value = Fin 0\<rparr> = Some (Fin d, t2)
         \<and> as_int64
             \<lparr>m_string = ''42'', m_flags = flags_decimal OR flags_integer OR flags_signed_integer,
              m_line_num = 1, m_lines_crossed = 0, m_type = type_number, m_values_valid = False,
              m_u64_value = 0, m_double_value = Fin 0\<rparr> = Some (trunc_toward_zero d, t3))"
proof -
  let ?L = "lexer_from_memory ''42'' 0 1"
  let ?T = "\<lparr>m_string = ''42'', m_flags = flags_decimal OR flags_integer OR flags_signed_integer,
        m_line_num = 1, m_lines_crossed = 0, m_type = type_number, m_values_valid = False,
        m_u64_value = 0, m_double_value = Fin 0\<rparr>"
  have d: "\<not> m_token_available ?L"
    by (simp add: scan_eval)
  have u: "as_uint64 ?T = Some (42, ?T\<lparr>m_u64_value := 42, m_double_value := double_of_u64 42,
              m_values_valid := True\<rparr>)"
    by (simp add: value_eval token_eval char_eval token_flag_eval)
  have small: "uint (42 :: 64 word) < 2 ^ 53" by simp
  from as_int64_truncates_as_double [OF scan_42 d u small] scan_42 [of default_tables] d u small
  show ?thesis by simp
qed

theorem as_int64_not_truncated_as_double:
  "next_token default_tables (lexer_from_memory ''9007199254740993'' 0 1) empty_token
     = Some (True,
         (lexer_from_memory ''9007199254740993'' 0 1)\<lparr>m_script_ptr := [],
            m_whitespace_start_ptr := Some ''9007199254740993'',
            m_whitespace_end_ptr := Some ''9007199254740993''\<rparr>,
         \<lparr>m_string = ''9007199254740993'',
          m_flags = flags_decimal OR flags_integer OR flags_signed_integer,
          m_line_num = 1, m_lines_crossed = 0, m_type = type_number, m_values_valid = False,
          m_u64_value = 0, m_double_value = Fin 0\<rparr>)
   \<and> map_option fst
         (as_int64
            \<lparr>m_string = ''9007199254740993'',
             m_flags = flags_decimal OR flags_integer OR flags_signed_integer,
             m_line_num = 1, m_lines_crossed = 0, m_type = type_number, m_values_valid = False,
             m_u64_value = 0, m_double_value = Fin 0\<rparr>) = Some 9007199254740993
   \<and> map_option fst
         (as_double
            \<lparr>m_string = ''9007199254740993'',
             m_flags = flags_decimal OR flags_integer OR flags_signed_integer,
             m_line_num = 1, m_lines_crossed = 0, m_type = type_number, m_values_valid = False,
             m_u64_value = 0, m_double_value = Fin 0\<rparr>) = Some (Fin 9007199254740992)
   \<and> trunc_toward_zero 9007199254740992 \<noteq> 9007199254740993"
proof -
  let ?T = "\<lparr>m_string = ''9007199254740993'',
        m_flags = flags_decimal OR flags_integer OR flags_signed_integer,
        m_line_num = 1, m_lines_crossed = 0, m_type = type_number, m_values_valid = False,
        m_u64_value = 0, m_double_value = Fin 0\<rparr>"
  have i: "map_option fst (as_int64 ?T) = Some 9007199254740993"
    by (simp add: value_eval token_eval char_eval token_flag_eval double_of_u64_def
        round_double_inexact)
  have d: "map_option fst (as_double ?T) = Some (Fin 9007199254740992)"
    by (simp add: value_eval token_eval char_eval token_flag_eval double_of_u64_def
        round_double_inexact)
  have t: "trunc_toward_zero 9007199254740992 \<noteq> 9007199254740993"
    by (simp add: trunc_toward_zero_def)
  show ?thesis
    using scan_9007199254740993 [of default_tables] i d t by simp
qed

subsection \<open>The cache of a trimmed token\<close>

text \<open>
  Claim C4. A decimal number token is given the text \<^verbatim>\<open>"7 "\<close> through the setters and
  queried: the cache is filled with 54. The token that \<^verbatim>\<open>trim\<close> returns has the text
  \<^verbatim>\<open>"7"\<close> and the same flags, and still answers 54 from the cache it has copied,
  while the value of that text and those flags is 7.
\<close>

theorem trim_keeps_cached_value:
  "as_uint64 (set_string ''7 '' (set_flags (flags_decimal OR flags_integer)
       (set_type type_number empty_token)))
     = Some (54, \<lparr>m_string = ''7 '', m_flags = flags_decimal OR flags_integer, m_line_num = 0,
                   m_lines_crossed = 0, m_type = type_number, m_values_valid = True,
                   m_u64_value = 54, m_double_value = Fin 54\<rparr>)
   \<and> trim \<lparr>m_string = ''7 '', m_flags = flags_decimal OR flags_integer, m_line_num = 0,
            m_lines_crossed = 0, m_type = type_number, m_values_valid = True,
            m_u64_value = 54, m_double_value = Fin 54\<rparr>
     = \<lparr>m_string = ''7'', m_flags = flags_decimal OR flags_integer, m_line_num = 0,
        m_lines_crossed = 0, m_type = type_number, m_values_valid = True,
        m_u64_value = 54, m_double_value = Fin 54\<rparr>
   \<and> map_option fst (as_uint64 \<lparr>m_string = ''7'', m_flags = flags_decimal OR flags_integer,
        m_line_num = 0, m_lines_crossed = 0, m_type = type_number, m_values_valid = True,
        m_u64_value = 54, m_double_value = Fin 54\<rparr>) = Some 54
   \<and> map_option fst (computed_values ''7'' (flags_decimal OR flags_integer)) = Some 7"
proof -
  have d: "double_of_u64 54 = Fin 54"
    using double_of_u64_small [of 54] by simp
  show ?thesis
    by (simp add: value_eval token_eval char_eval token_flag_eval trim_eval d)
qed

subsection \<open>Escape sequences with a number\<close>

text \<open>
  What the string scanner does at a backslash that is followed by a run of decimal digits
  not beginning with \<^verbatim>\<open>0\<close>, or by \<^verbatim>\<open>x\<close> and a run of digits and letters, escape
  characters being enabled and the value of the run below \<open>2 ^ 31\<close>: it appends the
  character with that code, or counts a warning and appends the character 255 when the
  value is above 255, and goes on behind the run.
\<close>

lemma escape_sequence_value:
  assumes "\<not> lex_flag s flags_no_string_escape_chars"
  shows
    "(m_script_ptr s = CHR 0x5C # ds @ rest \<and> ds \<noteq> [] \<and> (\<forall>x\<in>set ds. is_digit x)
        \<and> hd ds \<noteq> CHR ''0'' \<and> \<not> is_digit (peek rest) \<and> decimal_number ds < 2 ^ 31
      \<longrightarrow> string_loop quote s tok
          = string_loop quote
              (if 255 < decimal_number ds
               then s\<lparr>m_script_ptr := rest, m_warn_count := m_warn_count s + 1\<rparr>
               else s\<lparr>m_script_ptr := rest\<rparr>)
              (append_char (char_of (min 255 (decimal_number ds))) tok))
     \<and> (m_script_ptr s = CHR 0x5C # CHR ''x'' # hs @ rest
        \<and> (\<forall>x\<in>set hs. is_escape_hex_digit x) \<and> \<not> is_escape_hex_digit (peek rest)
        \<and> escape_hex_number hs < 2 ^ 31
      \<longrightarrow> string_loop quote s tok
          = string_loop quote
              (if 255 < escape_hex_number hs
               then s\<lparr>m_script_ptr := rest, m_warn_count := m_warn_count s + 1\<rparr>
               else s\<lparr>m_script_ptr := rest\<rparr>)
              (append_char (char_of (min 255 (escape_hex_number hs))) tok))"
proof (intro conjI impI)
  assume h: "m_script_ptr s = CHR 0x5C # ds @ rest \<and> ds \<noteq> [] \<and> (\<forall>x\<in>set ds. is_digit x)
        \<and> hd ds \<noteq> CHR ''0'' \<and> \<not> is_digit (peek rest) \<and> decimal_number ds < 2 ^ 31"
  then have c: "cur s = CHR 0x5C" by (simp add: cur_def peek_def)
  have e: "internal_read_escape_character s
         = (True,
            (if 255 < decimal_number ds
             then s\<lparr>m_script_ptr := rest, m_warn_count := m_warn_count s + 1\<rparr>
             else s\<lparr>m_script_ptr := rest\<rparr>),
            char_of (min 255 (decimal_number ds)))"
    using h by (intro escape_decimal) blast+
  show "string_loop quote s tok
          = string_loop quote
              (if 255 < decimal_number ds
               then s\<lparr>m_script_ptr := rest, m_warn_count := m_warn_count s + 1\<rparr>
               else s\<lparr>m_script_ptr := rest\<rparr>)
              (append_char (char_of (min 255 (decimal_number ds))) tok)"
    using c assms e by (rule string_loop_escape)
next
  assume h: "m_script_ptr s = CHR 0x5C # CHR ''x'' # hs @ rest
        \<and> (\<forall>x\<in>set hs. is_escape_hex_digit x) \<and> \<not> is_escape_hex_digit (peek rest)
        \<and> escape_hex_number hs < 2 ^ 31"
  then have c: "cur s = CHR 0x5C" by (simp add: cur_def peek_def)
  have e: "internal_read_escape_character s
         = (True,
            (if 255 < escape_hex_number hs
             then s\<lparr>m_script_ptr := rest, m_warn_count := m_warn_count s + 1\<rparr>
             else s\<lparr>m_script_ptr := rest\<rparr>),
            char_of (min 255 (escape_hex_number hs)))"
    using h by (intro escape_hexadecimal) blast+
  show "string_loop quote s tok
          = string_loop quote
              (if 255 < escape_hex_number hs
               then s\<lparr>m_script_ptr := rest, m_warn_count := m_warn_count s + 1\<rparr>
               else s\<lparr>m_script_ptr := rest\<rparr>)
              (append_char (char_of (min 255 (escape_hex_number hs))) tok)"
    using c assms e by (rule string_loop_escape)
qed

lemmas number_eval = decimal_number_def escape_hex_number_def

text \<open>
  Claim C5. The string \<^verbatim>\<open>"\065"\<close>, a backslash followed by the run of decimal digits
  \<^verbatim>\<open>065\<close>, whose decimal value is 65, is not scanned as the character with the code 65:
  \<^verbatim>\<open>next_token\<close> returns the string token with the text \<^verbatim>\<open>65\<close>. The backslash and the
  \<^verbatim>\<open>0\<close> are taken as the escape for NUL, which \<^verbatim>\<open>append\<close> leaves out, and the two
  digits that follow are ordinary characters of the string.
\<close>

theorem escape_sequence_leading_zero:
  "next_token default_tables
     (lexer_from_memory (CHR 0x22 # CHR 0x5C # ''065'' @ [CHR 0x22]) 0 1) empty_token
   = Some (True,
       (lexer_from_memory (CHR 0x22 # CHR 0x5C # ''065'' @ [CHR 0x22]) 0 1)
         \<lparr>m_script_ptr := [],
          m_whitespace_start_ptr := Some (CHR 0x22 # CHR 0x5C # ''065'' @ [CHR 0x22]),
          m_whitespace_end_ptr := Some (CHR 0x22 # CHR 0x5C # ''065'' @ [CHR 0x22])\<rparr>,
       \<lparr>m_string = ''65'', m_flags = 0, m_line_num = 1, m_lines_crossed = 0,
        m_type = type_string, m_values_valid = False, m_u64_value = 0,
        m_double_value = Fin 0\<rparr>)
   \<and> decimal_number ''065'' = 65
   \<and> ''65'' \<noteq> [char_of (65 :: nat)]"
  by (simp add: scan_eval token_eval char_eval lexer_flag_eval token_flag_eval number_eval)

subsection \<open>The value of an IP address token\<close>


lemma scan_two_dots:
  "next_token pt (lexer_from_memory ''1.2.3'' flags_allow_ip_addresses 1) empty_token
   = Some (False,
       (lexer_from_memory ''1.2.3'' flags_allow_ip_addresses 1)\<lparr>m_script_ptr := [],
          m_whitespace_start_ptr := Some ''1.2.3'', m_whitespace_end_ptr := Some ''1.2.3'',
          m_error_count := 1\<rparr>,
       \<lparr>m_string = ''1.2.3'', m_flags = 0, m_line_num = 1, m_lines_crossed = 0,
        m_type = type_none, m_values_valid = False, m_u64_value = 0,
        m_double_value = Fin 0\<rparr>)"
  by (simp add: scan_eval token_eval char_eval lexer_flag_eval token_flag_eval)




subsection \<open>The error and warning counters\<close>






subsection \<open>Checking and peeking after a token was put back\<close>

text \<open>
  Claim C8. On the buffer \<^verbatim>\<open>a b\<close> the client reads the token \<^verbatim>\<open>a\<close>, peeks at the
  next token, and puts \<^verbatim>\<open>a\<close> back with \<^verbatim>\<open>unget_token\<close>: a call of \<^verbatim>\<open>next_token\<close>
  would now return \<^verbatim>\<open>a\<close>. Instead the client calls \<^verbatim>\<open>check_token_string\<close>,
  \<^verbatim>\<open>check_token_type\<close>, \<^verbatim>\<open>peek_token_string\<close> or \<^verbatim>\<open>peek_token_type\<close> for a token
  that is not there. Each of them takes \<^verbatim>\<open>a\<close> out of the pushback slot, finds that it is
  not the token asked for, and sets the read position back to the saved one, leaving the
  slot empty: the token \<^verbatim>\<open>a\<close> is lost, and the next call of \<^verbatim>\<open>next_token\<close> returns
  \<^verbatim>\<open>b\<close>.
\<close>

theorem miss_after_unget_loses_token:
  "run_operations default_tables
     [call_next_token, call_peek_token_string ''b'',
      call_unget_token
        \<lparr>m_string = ''a'', m_flags = 0, m_line_num = 1, m_lines_crossed = 0,
        m_type = type_identifier, m_values_valid = False, m_u64_value = 0,
        m_double_value = Fin 0\<rparr>]
     ((lexer_from_memory ''a b'' 0 1), empty_token)
   = Some ((unget_token
      \<lparr>m_string = ''a'', m_flags = 0, m_line_num = 1, m_lines_crossed = 0,
        m_type = type_identifier, m_values_valid = False, m_u64_value = 0,
        m_double_value = Fin 0\<rparr>
      ((lexer_from_memory ''a b'' 0 1)\<lparr>m_script_ptr := '' b'', m_last_script_ptr := '' b'',
        m_whitespace_start_ptr := Some '' b'', m_whitespace_end_ptr := Some ''b''\<rparr>)),
      \<lparr>m_string = ''a'', m_flags = 0, m_line_num = 1, m_lines_crossed = 0,
        m_type = type_identifier, m_values_valid = False, m_u64_value = 0,
        m_double_value = Fin 0\<rparr>)
   \<and> next_token default_tables
       (unget_token
      \<lparr>m_string = ''a'', m_flags = 0, m_line_num = 1, m_lines_crossed = 0,
        m_type = type_identifier, m_values_valid = False, m_u64_value = 0,
        m_double_value = Fin 0\<rparr>
      ((lexer_from_memory ''a b'' 0 1)\<lparr>m_script_ptr := '' b'', m_last_script_ptr := '' b'',
        m_whitespace_start_ptr := Some '' b'', m_whitespace_end_ptr := Some ''b''\<rparr>))
       empty_token
     = Some (True,
         (lexer_from_memory ''a b'' 0 1)\<lparr>m_script_ptr := '' b'', m_last_script_ptr := '' b'',
        m_whitespace_start_ptr := Some '' b'', m_whitespace_end_ptr := Some ''b''\<rparr>,
         \<lparr>m_string = ''a'', m_flags = 0, m_line_num = 1, m_lines_crossed = 0,
        m_type = type_identifier, m_values_valid = False, m_u64_value = 0,
        m_double_value = Fin 0\<rparr>)
   \<and> check_token_string default_tables ''x''
       (unget_token
      \<lparr>m_string = ''a'', m_flags = 0, m_line_num = 1, m_lines_crossed = 0,
        m_type = type_identifier, m_values_valid = False, m_u64_value = 0,
        m_double_value = Fin 0\<rparr>
      ((lexer_from_memory ''a b'' 0 1)\<lparr>m_script_ptr := '' b'', m_last_script_ptr := '' b'',
        m_whitespace_start_ptr := Some '' b'', m_whitespace_end_ptr := Some ''b''\<rparr>))
       empty_token
     = Some (False,
         (lexer_from_memory ''a b'' 0 1)\<lparr>m_script_ptr := '' b'', m_last_script_ptr := '' b'',
        m_whitespace_start_ptr := Some '' b'', m_whitespace_end_ptr := Some ''b''\<rparr>,
         \<lparr>m_string = ''a'', m_flags = 0, m_line_num = 1, m_lines_crossed = 0,
        m_type = type_identifier, m_values_valid = False, m_u64_value = 0,
        m_double_value = Fin 0\<rparr>)
   \<and> check_token_type default_tables type_number 0
       (unget_token
      \<lparr>m_string = ''a'', m_flags = 0, m_line_num = 1, m_lines_crossed = 0,
        m_type = type_identifier, m_values_valid = False, m_u64_value = 0,
        m_double_value = Fin 0\<rparr>
      ((lexer_from_memory ''a b'' 0 1)\<lparr>m_script_ptr := '' b'', m_last_script_ptr := '' b'',
        m_whitespace_start_ptr := Some '' b'', m_whitespace_end_ptr := Some ''b''\<rparr>))
       empty_token
     = Some (False,
         (lexer_from_memory ''a b'' 0 1)\<lparr>m_script_ptr := '' b'', m_last_script_ptr := '' b'',
        m_whitespace_start_ptr := Some '' b'', m_whitespace_end_ptr := Some ''b''\<rparr>,
         empty_token)
   \<and> peek_token_string default_tables ''x''
       (unget_token
      \<lparr>m_string = ''a'', m_flags = 0, m_line_num = 1, m_lines_crossed = 0,
        m_type = type_identifier, m_values_valid = False, m_u64_value = 0,
        m_double_value = Fin 0\<rparr>
      ((lexer_from_memory ''a b'' 0 1)\<lparr>m_script_ptr := '' b'', m_last_script_ptr := '' b'',
        m_whitespace_start_ptr := Some '' b'', m_whitespace_end_ptr := Some ''b''\<rparr>))
     = Some (False,
         (lexer_from_memory ''a b'' 0 1)\<lparr>m_script_ptr := '' b'', m_last_script_ptr := '' b'',
        m_whitespace_start_ptr := Some '' b'', m_whitespace_end_ptr := Some ''b''\<rparr>)
   \<and> peek_token_type default_tables type_number 0
       (unget_token
      \<lparr>m_string = ''a'', m_flags = 0, m_line_num = 1, m_lines_crossed = 0,
        m_type = type_identifier, m_values_valid = False, m_u64_value = 0,
        m_double_value = Fin 0\<rparr>
      ((lexer_from_memory ''a b'' 0 1)\<lparr>m_script_ptr := '' b'', m_last_script_ptr := '' b'',
        m_whitespace_start_ptr := Some '' b'', m_whitespace_end_ptr := Some ''b''\<rparr>))
       empty_token
     = Some (False,
         (lexer_from_memory ''a b'' 0 1)\<lparr>m_script_ptr := '' b'', m_last_script_ptr := '' b'',
        m_whitespace_start_ptr := Some '' b'', m_whitespace_end_ptr := Some ''b''\<rparr>,
         empty_token)
   \<and> \<not> m_token_available
         ((lexer_from_memory ''a b'' 0 1)\<lparr>m_script_ptr := '' b'', m_last_script_ptr := '' b'',
        m_whitespace_start_ptr := Some '' b'', m_whitespace_end_ptr := Some ''b''\<rparr>)
   \<and> next_token default_tables
       ((lexer_from_memory ''a b'' 0 1)\<lparr>m_script_ptr := '' b'', m_last_script_ptr := '' b'',
        m_whitespace_start_ptr := Some '' b'', m_whitespace_end_ptr := Some ''b''\<rparr>)
       empty_token
     = Some (True,
         (lexer_from_memory ''a b'' 0 1)\<lparr>m_script_ptr := [], m_last_script_ptr := '' b'',
           m_whitespace_start_ptr := Some '' b'', m_whitespace_end_ptr := Some ''b''\<rparr>,
         \<lparr>m_string = ''b'', m_flags = 0, m_line_num = 1, m_lines_crossed = 0,
        m_type = type_identifier, m_values_valid = False, m_u64_value = 0,
        m_double_value = Fin 0\<rparr>)
   \<and> \<lparr>m_string = ''a'', m_flags = 0, m_line_num = 1, m_lines_crossed = 0,
        m_type = type_identifier, m_values_valid = False, m_u64_value = 0,
        m_double_value = Fin 0\<rparr>
     \<noteq> \<lparr>m_string = ''b'', m_flags = 0, m_line_num = 1, m_lines_crossed = 0,
        m_type = type_identifier, m_values_valid = False, m_u64_value = 0,
        m_double_value = Fin 0\<rparr>"
  by (simp add: scan_eval token_eval char_eval lexer_flag_eval token_flag_eval
      peek_token_string_def peek_token_type_def check_token_string_def check_token_type_def
      unget_token_def token_has_type_def)

subsection \<open>Input of comments only\<close>

text \<open>
  Claim C9. On the buffer \<^verbatim>\<open>/*a*//*b*/\<close>, which holds two comments and nothing else,
  \<^verbatim>\<open>next_token\<close> returns true with the punctuation token \<^verbatim>\<open>*\<close>: after the first
  comment \<^verbatim>\<open>internal_read_whitespace\<close> steps over two characters, the \<^verbatim>\<open>/\<close> that ends
  the comment and the \<^verbatim>\<open>/\<close> that opens the next one.
\<close>

theorem next_token_after_block_comment:
  "next_token default_tables (lexer_from_memory ''/*a*//*b*/'' 0 1) empty_token
   = Some (True,
       (lexer_from_memory ''/*a*//*b*/'' 0 1)\<lparr>m_script_ptr := ''b*/'',
          m_whitespace_start_ptr := Some ''/*a*//*b*/'',
          m_whitespace_end_ptr := Some ''*b*/''\<rparr>,
       \<lparr>m_string = ''*'', m_flags = 4, m_line_num = 1, m_lines_crossed = 0,
        m_type = type_punctuation, m_values_valid = False, m_u64_value = 0,
        m_double_value = Fin 0\<rparr>)"
  by (simp add: scan_eval token_eval char_eval lexer_flag_eval token_flag_eval punct_eval)

subsection \<open>Comparing a token with a character\<close>

text \<open>
  Claim C10. For every token \<open>tok\<close> and character \<open>c\<close>, \<^verbatim>\<open>tok != c\<close> holds only when
  the text of \<open>tok\<close> is exactly one character long and that character differs from
  \<open>c\<close>; so for a token whose text is empty or longer than one character both
  \<^verbatim>\<open>tok == c\<close> and \<^verbatim>\<open>tok != c\<close> are false, and the two operators are not complements
  of each other.
\<close>

theorem token_ne_char_one_character:
  "(token_ne_char tok c \<longleftrightarrow> length (m_string tok) = 1 \<and> hd (m_string tok) \<noteq> c)
   \<and> (length (m_string tok) \<noteq> 1 \<longrightarrow> \<not> token_eq_char tok c \<and> \<not> token_ne_char tok c)"
  by (cases "m_string tok") (auto simp: token_ne_char_def token_eq_char_def)

theorem token_ne_char_one_character_witness:
  "length (m_string (set_string ''ab'' empty_token)) \<noteq> 1
   \<and> \<not> token_eq_char (set_string ''ab'' empty_token) CHR ''a''
   \<and> \<not> token_ne_char (set_string ''ab'' empty_token) CHR ''a''
   \<and> \<not> token_eq_char empty_token CHR ''a''
   \<and> \<not> token_ne_char empty_token CHR ''a''"
  using token_ne_char_one_character [of "set_string ''ab'' empty_token" "CHR ''a''"]
    token_ne_char_one_character [of empty_token "CHR ''a''"]
  by (simp add: set_string_def empty_token_def)

end
